theory Spec2Isabelle
  imports Main "HOL-Library.Word"
begin

unbundle bit_operations_syntax

section \<open>Values, errors and results\<close>

text \<open>
  The library stores \<^verbatim>\<open>map[string]interface{}\<close> values. The dynamic values that reach
  it are the ones a JSON decoder with \<^verbatim>\<open>UseNumber\<close> produces: nil, strings,
  \<^verbatim>\<open>json.Number\<close> (a string holding the literal), booleans, lists and objects.
\<close>

datatype val =
    VNil
  | VString string
  | VNumber string
  | VBool bool
  | VList "val list"
  | VMap "(string \<times> val) list"

type_synonym Data = "string \<rightharpoonup> val"

text \<open>Indexing a Go map: a missing key yields the zero value, the nil interface.\<close>

definition index :: "Data \<Rightarrow> string \<Rightarrow> val" where
  "index d field = (case d field of None \<Rightarrow> VNil | Some v \<Rightarrow> v)"

text \<open>
  Go errors. \<^verbatim>\<open>fmt.Errorf("p: %w", e)\<close> is \<open>Wrap ''p: '' e\<close>; an error built from a plain
  message (a remote failure, \<^verbatim>\<open>errors.New\<close>, an \<^verbatim>\<open>Errorf\<close> without \<^verbatim>\<open>%w\<close>) is
  \<open>Errorf msg\<close>; the three custom error structs of the library keep their fields;
  \<open>CorruptInputError n\<close> is the error of \<^verbatim>\<open>encoding/base64\<close>, with the offset it reports;
  \<open>NumError f s r\<close> is \<^verbatim>\<open>strconv.NumError\<close> of function \<open>f\<close> on input \<open>s\<close>, a range error
  when \<open>r\<close> holds and a syntax error otherwise.
\<close>

datatype error =
    Errorf string
  | Wrap string error
  | KeyError string
  | FieldError string
  | ListError string string
  | CorruptInputError nat
  | NumError string string bool

text \<open>What a Go function leaves behind: a value, an error, or a run-time panic.\<close>

datatype 'a result = Ok 'a | Err error | Panic

type_synonym byte = "8 word"

section \<open>strconv\<close>

text \<open>
  \<^verbatim>\<open>strconv.FormatBool\<close>, \<^verbatim>\<open>strconv.ParseBool\<close>, \<^verbatim>\<open>strconv.FormatUint\<close>,
  \<^verbatim>\<open>strconv.ParseUint\<close> and \<^verbatim>\<open>strconv.ParseInt\<close> of the Go standard library, for base 10
  and 64 bits, the only way the library calls them. A parser returns its value together
  with the error, as in Go: the accessors below drop the error and keep the value.
\<close>

definition FormatBool :: "bool \<Rightarrow> string" where
  "FormatBool b = (if b then ''true'' else ''false'')"

definition ParseBool :: "string \<Rightarrow> bool \<times> error option" where
  "ParseBool str =
     (if str \<in> set [''1'', ''t'', ''T'', ''true'', ''TRUE'', ''True''] then (True, None)
      else if str \<in> set [''0'', ''f'', ''F'', ''false'', ''FALSE'', ''False''] then (False, None)
      else (False, Some (NumError ''ParseBool'' str False)))"

definition digit_char :: "nat \<Rightarrow> char" where
  "digit_char d = ''0123456789'' ! d"

fun FormatUint :: "nat \<Rightarrow> string" where
  "FormatUint n = (if n < 10 then [digit_char n] else FormatUint (n div 10) @ [digit_char (n mod 10)])"

declare FormatUint.simps [simp del]

definition maxUint64 :: nat where
  "maxUint64 = 2 ^ 64 - 1"

text \<open>\<^verbatim>\<open>lower(c)\<close> is \<^verbatim>\<open>c | ('x' - 'X')\<close>, the byte with bit 5 set.\<close>

definition lower :: "nat \<Rightarrow> nat" where
  "lower c = c OR 32"

text \<open>
  One round of the digit loop of \<^verbatim>\<open>ParseUint(s, 10, 64)\<close>: \<open>n\<close> is the 64-bit
  accumulator, the result is \<open>Inr n'\<close> for the next accumulator, \<open>Inl False\<close> for a syntax
  error and \<open>Inl True\<close> for a range error. \<^verbatim>\<open>cutoff = maxUint64/10 + 1\<close>; the product
  and the sum \<^verbatim>\<open>n1 := n + d\<close> wrap at 64 bits.
\<close>

definition digit_step :: "char \<Rightarrow> nat \<Rightarrow> bool + nat" where
  "digit_step c n =
     (let b = (of_char c :: nat) in
      if \<not> ((48 \<le> b \<and> b \<le> 57) \<or> (97 \<le> lower b \<and> lower b \<le> 122)) then Inl False
      else
        let d = (if 48 \<le> b \<and> b \<le> 57 then b - 48 else lower b - 97 + 10) in
        if d \<ge> 10 then Inl False
        else if n \<ge> maxUint64 div 10 + 1 then Inl True
        else
          let n10 = (n * 10) mod 2 ^ 64; n1 = (n10 + d) mod 2 ^ 64 in
          if n1 < n10 \<or> n1 > maxUint64 then Inl True
          else Inr n1)"

fun parse_digits :: "string \<Rightarrow> nat \<Rightarrow> bool + nat" where
  "parse_digits [] n = Inr n"
| "parse_digits (c # cs) n =
     (case digit_step c n of Inl e \<Rightarrow> Inl e | Inr n1 \<Rightarrow> parse_digits cs n1)"

definition ParseUint :: "string \<Rightarrow> nat \<times> error option" where
  "ParseUint s =
     (if s = [] then (0, Some (NumError ''ParseUint'' s False))
      else case parse_digits s 0 of
          Inr n \<Rightarrow> (n, None)
        | Inl False \<Rightarrow> (0, Some (NumError ''ParseUint'' s False))
        | Inl True \<Rightarrow> (maxUint64, Some (NumError ''ParseUint'' s True)))"

text \<open>
  \<^verbatim>\<open>ParseInt(s, 10, 64)\<close>, which \<^verbatim>\<open>json.Number.Int64\<close> calls: an optional sign, then
  \<^verbatim>\<open>ParseUint\<close>; a syntax error is returned at once, a range error of \<^verbatim>\<open>ParseUint\<close>
  leaves \<^verbatim>\<open>maxUint64\<close> to the range checks that follow.
\<close>

definition ParseInt :: "string \<Rightarrow> int \<times> error option" where
  "ParseInt s0 =
     (if s0 = [] then (0, Some (NumError ''ParseInt'' s0 False))
      else
        let neg = (hd s0 = CHR ''-'');
            s = (if hd s0 = CHR ''+'' \<or> hd s0 = CHR ''-'' then tl s0 else s0)
        in case ParseUint s of
             (un, Some (NumError f x False)) \<Rightarrow> (0, Some (NumError ''ParseInt'' s0 False))
           | (un, r) \<Rightarrow>
               if \<not> neg \<and> un \<ge> 2 ^ 63 then (2 ^ 63 - 1, Some (NumError ''ParseInt'' s0 True))
               else if neg \<and> un > 2 ^ 63 then (- (2 ^ 63), Some (NumError ''ParseInt'' s0 True))
               else (if neg then - int un else int un, None))"

definition Int64 :: "string \<Rightarrow> int \<times> error option" where
  "Int64 n = ParseInt n"

text \<open>
  \<^verbatim>\<open>strconv.Quote\<close>, used by \<^verbatim>\<open>%q\<close> and by the messages of \<^verbatim>\<open>NumError\<close>, on ASCII:
  the double quote and the backslash are escaped, the control characters are written with
  their named or hexadecimal escapes. Bytes from \<open>0x80\<close> on are copied (Go copies the
  printable runes they encode and escapes the others).
\<close>

definition hex_digit :: "nat \<Rightarrow> char" where
  "hex_digit d = ''0123456789abcdef'' ! d"

definition quote_char :: "char \<Rightarrow> string" where
  "quote_char c =
     (let b = (of_char c :: nat) in
      if c = CHR 0x22 \<or> c = CHR 0x5C then [CHR 0x5C, c]
      else if 32 \<le> b \<and> b < 127 then [c]
      else if b = 7 then [CHR 0x5C, CHR ''a'']
      else if b = 8 then [CHR 0x5C, CHR ''b'']
      else if b = 12 then [CHR 0x5C, CHR ''f'']
      else if b = 10 then [CHR 0x5C, CHR ''n'']
      else if b = 13 then [CHR 0x5C, CHR ''r'']
      else if b = 9 then [CHR 0x5C, CHR ''t'']
      else if b = 11 then [CHR 0x5C, CHR ''v'']
      else if b < 128 then [CHR 0x5C, CHR ''x'', hex_digit (b div 16), hex_digit (b mod 16)]
      else [c])"

definition Quote :: "string \<Rightarrow> string" where
  "Quote s = [CHR 0x22] @ concat (map quote_char s) @ [CHR 0x22]"

section \<open>The error types of the library\<close>

definition NewKeyError :: "string \<Rightarrow> error" where
  "NewKeyError key = KeyError key"

definition ErrKeyNotFound :: "string \<Rightarrow> error" where
  "ErrKeyNotFound key = Errorf (''vault: key '' @ key @ '' does not exist'')"

definition NewFieldError :: "string \<Rightarrow> error" where
  "NewFieldError field = FieldError field"

definition ErrFieldNotFound :: "string \<Rightarrow> error" where
  "ErrFieldNotFound key = Errorf (''vault: field '' @ key @ '' does not exist'')"

definition NewListError :: "string \<Rightarrow> string \<Rightarrow> error" where
  "NewListError rootPath path = ListError rootPath path"

definition ErrListPathNotFound :: "string \<Rightarrow> error" where
  "ErrListPathNotFound path = Errorf (''list: no keys found for given path '' @ Quote path)"

text \<open>
  The method \<^verbatim>\<open>Error()\<close>: the rendered message. The three custom errors render the
  message of \<^verbatim>\<open>ErrKeyNotFound(k.key)\<close>, \<^verbatim>\<open>ErrFieldNotFound(f.field)\<close> and
  \<^verbatim>\<open>ErrListPathNotFound(l.path)\<close>.
\<close>

fun Error :: "error \<Rightarrow> string" where
  "Error (Errorf msg) = msg"
| "Error (Wrap prefix e) = prefix @ Error e"
| "Error (KeyError key) = ''vault: key '' @ key @ '' does not exist''"
| "Error (FieldError field) = ''vault: field '' @ field @ '' does not exist''"
| "Error (ListError rootPath path) = ''list: no keys found for given path '' @ Quote path"
| "Error (CorruptInputError n) = ''illegal base64 data at input byte '' @ FormatUint n"
| "Error (NumError f num r) =
     ''strconv.'' @ f @ '': parsing '' @ Quote num @ '': ''
       @ (if r then ''value out of range'' else ''invalid syntax'')"

text \<open>
  \<^verbatim>\<open>errors.Is(err, target)\<close> for a target that has just been constructed, so that no
  error of the chain is the same pointer. The chain is followed through \<^verbatim>\<open>Unwrap\<close>; an
  error with a method \<^verbatim>\<open>Is\<close> (the three custom errors) is asked, and it compares the
  rendered messages; an error of \<^verbatim>\<open>errors.New\<close> or \<^verbatim>\<open>fmt.Errorf\<close> without \<^verbatim>\<open>%w\<close>
  ends the chain; \<^verbatim>\<open>CorruptInputError\<close> is an integer, compared by value.
\<close>

fun errors_Is :: "error \<Rightarrow> error \<Rightarrow> bool" where
  "errors_Is (Wrap prefix e) target = errors_Is e target"
| "errors_Is (KeyError key) target = (Error (KeyError key) = Error target)"
| "errors_Is (FieldError field) target = (Error (FieldError field) = Error target)"
| "errors_Is (ListError rootPath path) target = (Error (ListError rootPath path) = Error target)"
| "errors_Is (Errorf msg) target = False"
| "errors_Is (CorruptInputError n) target = (target = CorruptInputError n)"
| "errors_Is (NumError f num r) target = False"

section \<open>Time\<close>

text \<open>
  A \<^verbatim>\<open>time.Time\<close> in UTC is the number of nanoseconds since the zero time, January 1 of
  year 1, 00:00:00 UTC; a \<^verbatim>\<open>time.Duration\<close> is a 64-bit count of nanoseconds.
  \<^verbatim>\<open>time.Duration(n) * time.Second\<close> is a 64-bit product and wraps.
\<close>

type_synonym time = int

definition IsZero :: "time \<Rightarrow> bool" where
  "IsZero t = (t = 0)"

definition Before :: "time \<Rightarrow> time \<Rightarrow> bool" where
  "Before t u = (t < u)"

definition seconds :: "int \<Rightarrow> int" where
  "seconds n = sint (word_of_int n * 1000000000 :: 64 word)"

definition Add :: "time \<Rightarrow> int \<Rightarrow> time" where
  "Add t d = t + d"

text \<open>
  \<^verbatim>\<open>t.AddDate(years, 0, 0)\<close> in UTC: the date of \<open>t\<close> with the year moved, the clock
  kept; a February 29 that the new year does not have becomes March 1. The calendar is the
  proleptic Gregorian one, in cycles of 400, 100 and 4 years.
\<close>

definition isLeap :: "int \<Rightarrow> bool" where
  "isLeap year = (year mod 4 = 0 \<and> (year mod 100 \<noteq> 0 \<or> year mod 400 = 0))"

definition daysBefore :: "int list" where
  "daysBefore = [0, 31, 59, 90, 120, 151, 181, 212, 243, 273, 304, 334, 365]"

definition daysSinceYear1 :: "int \<Rightarrow> int" where
  "daysSinceYear1 year =
     (let y = year - 1 in 365 * y + y div 4 - y div 100 + y div 400)"

definition yearDay :: "int \<Rightarrow> int \<times> int" where
  "yearDay days =
     (let n400 = days div 146097; d1 = days - 146097 * n400;
          n100 = d1 div 36524; n100' = n100 - n100 div 4; d2 = d1 - 36524 * n100';
          n4 = d2 div 1461; d3 = d2 - 1461 * n4;
          n = d3 div 365; n' = n - n div 4; d4 = d3 - 365 * n'
      in (1 + 400 * n400 + 100 * n100' + 4 * n4 + n', d4))"

definition monthDay :: "int \<Rightarrow> int \<Rightarrow> int \<times> int" where
  "monthDay year yday =
     (if isLeap year \<and> yday = 31 + 29 - 1 then (2, 29)
      else
        let day = (if isLeap year \<and> yday > 31 + 29 - 1 then yday - 1 else yday);
            m = day div 31;
            end = daysBefore ! nat (m + 1)
        in if day \<ge> end then (m + 2, day - end + 1)
           else (m + 1, day - daysBefore ! nat m + 1))"

definition Date :: "int \<Rightarrow> int \<Rightarrow> int \<Rightarrow> int \<Rightarrow> time" where
  "Date year month day clock =
     (daysSinceYear1 year + daysBefore ! nat (month - 1)
        + (if isLeap year \<and> month \<ge> 3 then 1 else 0) + (day - 1)) * 86400000000000 + clock"

definition AddDate :: "time \<Rightarrow> int \<Rightarrow> time" where
  "AddDate t years =
     (let days = t div 86400000000000; clock = t mod 86400000000000;
          (year, yday) = yearDay days;
          (month, day) = monthDay year yday
      in Date (year + years) month day clock)"

section \<open>encoding/base64, URL alphabet with padding\<close>

text \<open>
  \<^verbatim>\<open>base64.URLEncoding\<close> of the Go standard library. The encoder works on groups of three
  bytes: \<^verbatim>\<open>val := uint(a)<<16 | uint(b)<<8 | uint(c)\<close>, then the four sextets
  \<^verbatim>\<open>val>>18&0x3F\<close>, ... index the alphabet; a last group of one or two bytes is padded
  with \<^verbatim>\<open>=\<close>. The shifted operands have no bit in common, so the \<^verbatim>\<open>|\<close> is written
  as a sum, a right shift as a division and the mask as \<open>mod 64\<close>.
\<close>

definition encodeURL :: string where
  "encodeURL = ''ABCDEFGHIJKLMNOPQRSTUVWXYZabcdefghijklmnopqrstuvwxyz0123456789-_''"

definition enc :: "nat \<Rightarrow> char" where
  "enc k = encodeURL ! k"

fun EncodeToString :: "byte list \<Rightarrow> string" where
  "EncodeToString [] = []"
| "EncodeToString [a] =
     (let v = unat a * 65536 in
      [enc (v div 262144 mod 64), enc (v div 4096 mod 64), CHR ''='', CHR ''=''])"
| "EncodeToString [a, b] =
     (let v = unat a * 65536 + unat b * 256 in
      [enc (v div 262144 mod 64), enc (v div 4096 mod 64), enc (v div 64 mod 64), CHR ''=''])"
| "EncodeToString (a # b # c # rest) =
     (let v = unat a * 65536 + unat b * 256 + unat c in
      [enc (v div 262144 mod 64), enc (v div 4096 mod 64), enc (v div 64 mod 64), enc (v mod 64)]
      @ EncodeToString rest)"

text \<open>
  The decoder's table: \<^verbatim>\<open>decodeMap[encoder[i]] = i\<close>, every other entry \<^verbatim>\<open>0xff\<close>.
\<close>

fun lookup_pos :: "char \<Rightarrow> string \<Rightarrow> nat \<Rightarrow> nat" where
  "lookup_pos c [] i = 255"
| "lookup_pos c (x # xs) i = (if x = c then i else lookup_pos c xs (Suc i))"

definition decodeMap :: "char \<Rightarrow> nat" where
  "decodeMap c = lookup_pos c encodeURL 0"

definition is_newline :: "char \<Rightarrow> bool" where
  "is_newline c = (c = CHR 0x0A \<or> c = CHR 0x0D)"

text \<open>
  \<^verbatim>\<open>decodeQuantum\<close> collects up to four sextets in \<^verbatim>\<open>dbuf\<close> (here \<open>acc\<close>, whose
  length is the loop counter \<^verbatim>\<open>j\<close>) and turns them into \<^verbatim>\<open>dlen - 1\<close> bytes; the
  encoding is not strict, so left-over bits are dropped without a check.
\<close>

definition quantum_bytes :: "nat list \<Rightarrow> byte list" where
  "quantum_bytes acc =
     (let dbuf = acc @ replicate (4 - length acc) 0;
          v = dbuf ! 0 * 262144 + dbuf ! 1 * 4096 + dbuf ! 2 * 64 + dbuf ! 3
      in take (length acc - 1)
           [of_nat (v div 65536 mod 256), of_nat (v div 256 mod 256), of_nat (v mod 256)])"

text \<open>
  The padding has been read: skip line breaks; anything left is trailing garbage, reported
  with the bytes of this quantum.
\<close>

definition finish_padding :: "string \<Rightarrow> nat list \<Rightarrow> nat \<Rightarrow> byte list \<times> error option" where
  "finish_padding cs acc si =
     (let n = length (takeWhile is_newline cs) in
      (quantum_bytes acc,
       if dropWhile is_newline cs \<noteq> [] then Some (CorruptInputError (si + n)) else None))"

text \<open>
  \<^verbatim>\<open>Decode\<close>: quantum after quantum until the input ends; \<open>si\<close> is the offset of the
  next input byte. The bytes of the quanta decoded before an error are kept
  (\<^verbatim>\<open>DecodeString\<close> returns \<^verbatim>\<open>dbuf[:n], err\<close>).
\<close>

fun decode_loop :: "string \<Rightarrow> nat list \<Rightarrow> nat \<Rightarrow> byte list \<times> error option" where
  "decode_loop [] acc si =
     (if acc = [] then ([], None) else ([], Some (CorruptInputError (si - length acc))))"
| "decode_loop (c # cs) acc si =
     (if decodeMap c \<noteq> 255 then
        (if length acc = 3 then
           (let r = decode_loop cs [] (Suc si)
            in (quantum_bytes (acc @ [decodeMap c]) @ fst r, snd r))
         else decode_loop cs (acc @ [decodeMap c]) (Suc si))
      else if is_newline c then decode_loop cs acc (Suc si)
      else if c \<noteq> CHR ''='' then ([], Some (CorruptInputError si))
      else if length acc < 2 then ([], Some (CorruptInputError si))
      else if length acc = 2 then
        (let n = length (takeWhile is_newline cs) in
         case dropWhile is_newline cs of
           [] \<Rightarrow> ([], Some (CorruptInputError (Suc si + n)))
         | c' # cs' \<Rightarrow>
             if c' \<noteq> CHR ''='' then ([], Some (CorruptInputError (si + n)))
             else finish_padding cs' acc (Suc (Suc si + n)))
      else finish_padding cs acc (Suc si))"

definition DecodeString :: "string \<Rightarrow> byte list \<times> error option" where
  "DecodeString s = decode_loop s [] 0"

text \<open>
  Valid base64 in the URL alphabet with padding, for the decoder of Go: line breaks do not
  count; the rest is made of groups of four characters of the alphabet, where the last
  group may end in one or two padding characters.
\<close>

fun valid_quanta :: "string \<Rightarrow> bool" where
  "valid_quanta [] = True"
| "valid_quanta [a, b, c, d] =
     (a \<in> set encodeURL \<and> b \<in> set encodeURL
      \<and> (if c = CHR ''='' then d = CHR ''=''
          else c \<in> set encodeURL \<and> (d = CHR ''='' \<or> d \<in> set encodeURL)))"
| "valid_quanta (a # b # c # d # rest) =
     (a \<in> set encodeURL \<and> b \<in> set encodeURL \<and> c \<in> set encodeURL \<and> d \<in> set encodeURL
      \<and> valid_quanta rest)"
| "valid_quanta s = False"

definition valid_base64 :: "string \<Rightarrow> bool" where
  "valid_base64 s = valid_quanta (filter (\<lambda>c. \<not> is_newline c) s)"

text \<open>
  The same set of strings as an automaton on the characters that are not line breaks, the
  form in which the decoder meets it: \<open>j\<close> characters of the current group have been read.
\<close>

fun valid_from :: "nat \<Rightarrow> string \<Rightarrow> bool" where
  "valid_from j [] = (j = 0)"
| "valid_from j (c # cs) =
     (if c \<in> set encodeURL then valid_from (Suc j mod 4) cs
      else c = CHR ''='' \<and> ((j = 2 \<and> cs = [CHR ''='']) \<or> (j = 3 \<and> cs = [])))"

section \<open>Data: typed accessors over string fields\<close>

definition NewData :: Data where
  "NewData = Map.empty"

definition Exist :: "Data \<Rightarrow> string \<Rightarrow> bool" where
  "Exist d field = (d field \<noteq> None)"

definition GetString :: "Data \<Rightarrow> string \<Rightarrow> string" where
  "GetString d field = (case index d field of VString v \<Rightarrow> v | _ \<Rightarrow> [])"

definition GetBool :: "Data \<Rightarrow> string \<Rightarrow> bool" where
  "GetBool d field = (case index d field of VString v \<Rightarrow> fst (ParseBool v) | _ \<Rightarrow> False)"

definition GetUint64 :: "Data \<Rightarrow> string \<Rightarrow> 64 word" where
  "GetUint64 d field = (case index d field of VString v \<Rightarrow> of_nat (fst (ParseUint v)) | _ \<Rightarrow> 0)"

definition GetBytes :: "Data \<Rightarrow> string \<Rightarrow> byte list \<times> error option" where
  "GetBytes d field =
     (case index d field of
        VString v \<Rightarrow>
          if length v = 0 then ([], Some (Errorf (''getbytes:'' @ field @ '' is empty'')))
          else DecodeString v
      | _ \<Rightarrow> ([], Some (Errorf (''getbytes: no such field '' @ field))))"

definition SetString :: "Data \<Rightarrow> string \<Rightarrow> string \<Rightarrow> Data" where
  "SetString d field v = d(field \<mapsto> VString v)"

definition SetBool :: "Data \<Rightarrow> string \<Rightarrow> bool \<Rightarrow> Data" where
  "SetBool d field v = d(field \<mapsto> VString (FormatBool v))"

definition SetUint64 :: "Data \<Rightarrow> string \<Rightarrow> 64 word \<Rightarrow> Data" where
  "SetUint64 d field v = d(field \<mapsto> VString (FormatUint (unat v)))"

definition SetBytes :: "Data \<Rightarrow> string \<Rightarrow> byte list \<Rightarrow> Data" where
  "SetBytes d field v = d(field \<mapsto> VString (EncodeToString v))"

section \<open>The remote service as seen by one call\<close>

text \<open>
  A \<^verbatim>\<open>*hvault.Secret\<close> with the two fields the library reads, and the \<^verbatim>\<open>*SecretAuth\<close> in
  it. \<^verbatim>\<open>LeaseDuration\<close> is a Go \<^verbatim>\<open>int\<close>, 64 bits wide on the platforms considered.
\<close>

record SecretAuth =
  ClientToken :: string
  LeaseDuration :: int

record Secret =
  Data :: Data
  Auth :: "SecretAuth option"

text \<open>
  What a call does to the outside world, in order: the trace of a call. \<open>CallGetToken\<close>
  marks the facade handing over to the credential provider.
\<close>

datatype event =
    ReadFile string
  | SetToken string
  | LogicalRead string
  | LogicalWrite string "Data option"
  | LogicalDelete string
  | LogicalList string
  | SealStatus
  | NewClient
  | Sleep int
  | CallGetToken

text \<open>
  The world during one call: the clock, the file system, and the answer of the remote
  service to each request, \<open>Inl\<close> for an error and \<open>Inr None\<close> for a nil secret without an
  error. \<open>parse_time\<close> is \<^verbatim>\<open>time.Parse\<close> with the layout
  \<^verbatim>\<open>2006-01-02T15:04:05.000000000Z\<close>; the library drops its error, and \<^verbatim>\<open>time.Parse\<close>
  returns the zero time with an error.
\<close>

record env =
  now :: time
  read_file :: "string \<Rightarrow> error + string"
  parse_time :: "string \<Rightarrow> time"
  logical_read :: "string \<Rightarrow> error + Secret option"
  logical_write :: "string \<Rightarrow> Data option \<Rightarrow> error + Secret option"
  logical_delete :: "string \<Rightarrow> error + Secret option"
  logical_list :: "string \<Rightarrow> error + Secret option"
  seal_status :: "error + bool option"

section \<open>Token: a standing token\<close>

text \<open>
  The mutex is held from the first to the last statement of \<^verbatim>\<open>GetToken\<close>, so a call is
  one step on the state; concurrent calls are a sequence of such steps. The method
  \<^verbatim>\<open>GetToken\<close> of \<^verbatim>\<open>Token\<close> is \<open>Token_GetToken\<close>, that of \<^verbatim>\<open>AppRole\<close> is
  \<open>AppRole_GetToken\<close>. One call reads the clock once.
\<close>

record Token =
  token :: string
  token_file :: string
  expires :: time


definition SetTokenFile :: "Token \<Rightarrow> string \<Rightarrow> Token" where
  "SetTokenFile t f = t\<lparr>token_file := f\<rparr>"

definition Token_GetToken :: "Token \<Rightarrow> env \<Rightarrow> string result \<times> Token \<times> event list" where
  "Token_GetToken t e =
     (if length (token_file t) \<noteq> 0 then
        (case read_file e (token_file t) of
           Inl err \<Rightarrow> (Err (Wrap ''gettoken: '' err), t, [ReadFile (token_file t)])
         | Inr bytes \<Rightarrow> (Ok bytes, t, [ReadFile (token_file t)]))
      else if Before (now e) (expires t) then (Ok (token t), t, [])
      else if IsZero (expires t) then
        (let tr = [SetToken (token t), LogicalRead ''/auth/token/lookup-self''] in
         case logical_read e ''/auth/token/lookup-self'' of
           Inl errZero \<Rightarrow> (Err (Wrap ''gettoken: '' errZero), t, tr)
         | Inr None \<Rightarrow> (Panic, t, tr)
         | Inr (Some secret) \<Rightarrow>
             (case index (Data secret) ''creation_ttl'' of
                VNumber n \<Rightarrow>
                  (case Int64 n of
                     (ttl, Some errZero) \<Rightarrow> (Err (Wrap ''gettoken: '' errZero), t, tr)
                   | (ttl, None) \<Rightarrow>
                       (let ttl = (if ttl > 20 then ttl - 10 else ttl) in
                        case index (Data secret) ''expire_time'' of
                          VNil \<Rightarrow> (Ok (token t), t\<lparr>expires := AddDate (now e) 1000\<rparr>, tr)
                        | VString x \<Rightarrow>
                            (Ok (token t), t\<lparr>expires := Add (parse_time e x) (seconds ttl)\<rparr>, tr)
                        | _ \<Rightarrow> (Panic, t, tr)))
              | _ \<Rightarrow> (Panic, t, tr)))
      else
        (let tr = [SetToken (token t), LogicalWrite ''/auth/token/renew-self'' None] in
         case logical_write e ''/auth/token/renew-self'' None of
           Inl err \<Rightarrow> (Err (Wrap ''gettoken: '' err), t, tr)
         | Inr secret \<Rightarrow> (Ok (token t), t, tr)))"

section \<open>AppRole: a token minted from a role identifier and a secret\<close>

text \<open>The field \<^verbatim>\<open>expires\<close> of \<^verbatim>\<open>AppRole\<close> is \<open>ar_expires\<close>, apart from that of \<^verbatim>\<open>Token\<close>.\<close>

record AppRole =
  appRoleName :: string
  role_id :: string
  secret_id :: string
  unwrap_token :: string
  path :: string
  auth :: "SecretAuth option"
  ar_expires :: time

definition NewAppRole :: "string \<Rightarrow> string \<Rightarrow> string \<Rightarrow> AppRole" where
  "NewAppRole p name rid =
     \<lparr>appRoleName = name, role_id = rid, secret_id = [], unwrap_token = [],
      path = ''auth/'' @ p, auth = None, ar_expires = 0\<rparr>"

definition SetSecretID :: "AppRole \<Rightarrow> string \<Rightarrow> AppRole" where
  "SetSecretID ar sid = ar\<lparr>secret_id := sid\<rparr>"

definition SetUnwrapToken :: "AppRole \<Rightarrow> string \<Rightarrow> AppRole" where
  "SetUnwrapToken ar tok = ar\<lparr>unwrap_token := tok\<rparr>"

text \<open>\<^verbatim>\<open>setexpiry\<close> dereferences \<^verbatim>\<open>ar.auth\<close>: a nil pointer is a panic.\<close>

definition setexpiry :: "AppRole \<Rightarrow> env \<Rightarrow> unit result \<times> AppRole" where
  "setexpiry ar e =
     (case auth ar of
        None \<Rightarrow> (Panic, ar)
      | Some a \<Rightarrow>
          (let a' = (if LeaseDuration a > 20 then a\<lparr>LeaseDuration := LeaseDuration a - 10\<rparr> else a)
           in (Ok (), ar\<lparr>auth := Some a', ar_expires := Add (now e) (seconds (LeaseDuration a'))\<rparr>)))"

definition unwrap :: "AppRole \<Rightarrow> env \<Rightarrow> unit result \<times> AppRole \<times> event list" where
  "unwrap ar e =
     (let tr = [SetToken (unwrap_token ar), LogicalWrite ''sys/wrapping/unwrap'' None] in
      case logical_write e ''sys/wrapping/unwrap'' None of
        Inl err \<Rightarrow> (Err (Wrap ''unwrap: '' err), ar, tr)
      | Inr secret \<Rightarrow>
          (let ar1 = ar\<lparr>auth := Some \<lparr>ClientToken = [], LeaseDuration = 0\<rparr>\<rparr> in
           case secret of
             None \<Rightarrow> (Panic, ar1, tr)
           | Some sec \<Rightarrow>
               (case index (Data sec) ''secret_id_ttl'' of
                  VNumber n \<Rightarrow>
                    (case Int64 n of
                       (ttl, Some err) \<Rightarrow> (Err (Wrap ''unwrap: '' err), ar1, tr)
                     | (ttl, None) \<Rightarrow>
                         (case index (Data sec) ''secret_id'' of
                            VString sid \<Rightarrow>
                              (let ar2 = ar1\<lparr>secret_id := sid,
                                     auth := Some \<lparr>ClientToken = [], LeaseDuration = ttl\<rparr>\<rparr>;
                                   r = setexpiry ar2 e
                               in (fst r, snd r, tr))
                          | _ \<Rightarrow> (Panic, ar1, tr)))
                | _ \<Rightarrow> (Panic, ar1, tr))))"

definition new :: "AppRole \<Rightarrow> env \<Rightarrow> unit result \<times> AppRole \<times> event list" where
  "new ar e =
     (if length (role_id ar) = 0 \<and> length (secret_id ar) = 0 then
        (Err (Errorf (''new: missing '' @ [CHR 0x27] @ ''role_id'' @ [CHR 0x27] @ '' and ''
                @ [CHR 0x27] @ ''secret_id'' @ [CHR 0x27] @ '' to get new token'')), ar, [])
      else
        (let d = SetString (SetString NewData ''role_id'' (role_id ar)) ''secret_id'' (secret_id ar);
             tr = [LogicalWrite (path ar @ ''/login'') (Some d)]
         in case logical_write e (path ar @ ''/login'') (Some d) of
              Inl err \<Rightarrow> (Err (Wrap ''new: '' err), ar, tr)
            | Inr None \<Rightarrow> (Panic, ar, tr)
            | Inr (Some sec) \<Rightarrow>
                (let r = setexpiry (ar\<lparr>auth := Auth sec\<rparr>) e in (fst r, snd r, tr))))"

definition renew :: "AppRole \<Rightarrow> env \<Rightarrow> unit result \<times> AppRole \<times> event list" where
  "renew ar e =
     (case auth ar of
        None \<Rightarrow> (Panic, ar, [])
      | Some a \<Rightarrow>
          if length (ClientToken a) = 0 then
            (Err (Errorf (''renew: missing '' @ [CHR 0x27] @ ''token'' @ [CHR 0x27] @ '' for renewal'')),
             ar, [])
          else
            (let tr = [SetToken (ClientToken a), LogicalWrite ''auth/token/renew-self'' None] in
             case logical_write e ''auth/token/renew-self'' None of
               Inl err \<Rightarrow> (Err (Wrap ''renew: '' err), ar, tr)
             | Inr None \<Rightarrow> (Panic, ar, tr)
             | Inr (Some sec) \<Rightarrow>
                 (let r = setexpiry (ar\<lparr>auth := Auth sec\<rparr>) e in (fst r, snd r, tr))))"

text \<open>
  \<^verbatim>\<open>GetToken\<close> from the check of \<^verbatim>\<open>secret_id\<close> on: the login. \<open>tr\<close> is the trace so far.
\<close>

definition GetToken_new :: "AppRole \<Rightarrow> env \<Rightarrow> event list \<Rightarrow> string result \<times> AppRole \<times> event list" where
  "GetToken_new ar e tr =
     (if length (secret_id ar) = 0 then
        (Err (Errorf (''gettoken: missing '' @ [CHR 0x27] @ ''secret_id'' @ [CHR 0x27]
                @ '' to get a valid token from Vault'')), ar, tr)
      else
        (case new ar e of
           (Err err, ar1, tr1) \<Rightarrow> (Err (Wrap ''gettoken: '' err), ar1, tr @ tr1)
         | (Panic, ar1, tr1) \<Rightarrow> (Panic, ar1, tr @ tr1)
         | (Ok u, ar1, tr1) \<Rightarrow>
             (case auth ar1 of
                None \<Rightarrow> (Panic, ar1, tr @ tr1)
              | Some a \<Rightarrow> (Ok (ClientToken a), ar1, tr @ tr1))))"

text \<open>
  \<^verbatim>\<open>GetToken\<close> from the check of \<^verbatim>\<open>unwrap_token\<close> on, reached when there is no token
  yet or its renewal has failed.
\<close>

definition GetToken_mint :: "AppRole \<Rightarrow> env \<Rightarrow> event list \<Rightarrow> string result \<times> AppRole \<times> event list" where
  "GetToken_mint ar e tr =
     (if length (unwrap_token ar) \<noteq> 0 then
        (case unwrap ar e of
           (Err err, ar1, tr1) \<Rightarrow> (Err (Wrap ''gettoken: '' err), ar1, tr @ tr1)
         | (Panic, ar1, tr1) \<Rightarrow> (Panic, ar1, tr @ tr1)
         | (Ok u, ar1, tr1) \<Rightarrow> GetToken_new (ar1\<lparr>unwrap_token := []\<rparr>) e (tr @ tr1))
      else GetToken_new ar e tr)"

definition AppRole_GetToken :: "AppRole \<Rightarrow> env \<Rightarrow> string result \<times> AppRole \<times> event list" where
  "AppRole_GetToken ar e =
     (case auth ar of
        None \<Rightarrow> GetToken_mint ar e []
      | Some a \<Rightarrow>
          if length (ClientToken a) \<noteq> 0 \<and> Before (now e) (ar_expires ar) then
            (Ok (ClientToken a), ar, [])
          else
            (case renew ar e of
               (Ok u, ar1, tr) \<Rightarrow>
                 (case auth ar1 of
                    None \<Rightarrow> (Panic, ar1, tr)
                  | Some a1 \<Rightarrow> (Ok (ClientToken a1), ar1, tr))
             | (Panic, ar1, tr) \<Rightarrow> (Panic, ar1, tr)
             | (Err err, ar1, tr) \<Rightarrow> GetToken_mint ar1 e tr))"

section \<open>The credential provider and calls in sequence\<close>

text \<open>The interface \<^verbatim>\<open>Auth\<close> has the two implementations above.\<close>

datatype Auth = TokenAuth Token | AppRoleAuth AppRole

definition GetToken :: "Auth \<Rightarrow> env \<Rightarrow> string result \<times> Auth \<times> event list" where
  "GetToken a e =
     (case a of
        TokenAuth t \<Rightarrow> (let r = Token_GetToken t e in (fst r, TokenAuth (fst (snd r)), snd (snd r)))
      | AppRoleAuth ar \<Rightarrow>
          (let r = AppRole_GetToken ar e in (fst r, AppRoleAuth (fst (snd r)), snd (snd r))))"

text \<open>
  Calls of one operation \<open>f\<close> on one state, in the order in which they obtain its mutex;
  each call meets the world of its own moment. The results and the traces are collected.
\<close>

fun calls :: "('s \<Rightarrow> env \<Rightarrow> 'r \<times> 's \<times> event list) \<Rightarrow> 's \<Rightarrow> env list \<Rightarrow> 'r list \<times> 's \<times> event list" where
  "calls f s [] = ([], s, [])"
| "calls f s (e # es) =
     (let r = f s e; rs = calls f (fst (snd r)) es
      in (fst r # fst rs, fst (snd rs), snd (snd r) @ snd (snd rs)))"

text \<open>The requests that renew, unwrap or log in, as they appear in a trace.\<close>

definition is_renew :: "event \<Rightarrow> bool" where
  "is_renew ev =
     (case ev of
        LogicalWrite p d \<Rightarrow> p = ''/auth/token/renew-self'' \<or> p = ''auth/token/renew-self''
      | _ \<Rightarrow> False)"


definition is_login :: "AppRole \<Rightarrow> event \<Rightarrow> bool" where
  "is_login ar ev = (case ev of LogicalWrite p d \<Rightarrow> p = path ar @ ''/login'' | _ \<Rightarrow> False)"

text \<open>
  \<^verbatim>\<open>GetToken\<close> of an AppRole gets as far as minting when there is no token yet, or when
  the token is not served from the cache and its renewal fails with an error.
\<close>

definition reaches_mint :: "AppRole \<Rightarrow> env \<Rightarrow> bool" where
  "reaches_mint ar e =
     (case auth ar of
        None \<Rightarrow> True
      | Some a \<Rightarrow>
          \<not> (length (ClientToken a) \<noteq> 0 \<and> Before (now e) (ar_expires ar))
          \<and> (case fst (renew ar e) of Err err \<Rightarrow> True | _ \<Rightarrow> False))"


text \<open>
  The safety margin in the words of the specification: ten units less for a lease of more
  than twenty units.
\<close>

definition margin :: "int \<Rightarrow> int" where
  "margin L = (if L > 20 then L - 10 else L)"

text \<open>
  A world for the examples: November 1, 2026, 00:00 UTC; the service is unsealed and
  answers every request with a nil secret; there is no file.
\<close>

definition quiet :: env where
  "quiet =
     \<lparr>now = 63929088000000000000,
      read_file = (\<lambda>f. Inl (Errorf ''no such file'')),
      parse_time = (\<lambda>x. 0),
      logical_read = (\<lambda>p. Inr None),
      logical_write = (\<lambda>p d. Inr None),
      logical_delete = (\<lambda>p. Inr None),
      logical_list = (\<lambda>p. Inr None),
      seal_status = Inr (Some False)\<rparr>"

text \<open>
  An answer for the examples that serves as the reply to an unwrap, a login and a renewal:
  a wrapped secret identifier good for an hour, and a token with a lease of an hour. In the
  world \<open>granting\<close> every write is answered with it.
\<close>

definition grant :: Secret where
  "grant =
     \<lparr>Data = [''secret_id_ttl'' \<mapsto> VNumber ''3600'', ''secret_id'' \<mapsto> VString ''s3cr3t''],
      Auth = Some \<lparr>ClientToken = ''tok'', LeaseDuration = 3600\<rparr>\<rparr>"

definition granting :: env where
  "granting = quiet\<lparr>logical_write := (\<lambda>p d. Inr (Some grant))\<rparr>"




section \<open>Client: the facade\<close>

text \<open>
  The field \<^verbatim>\<open>auth\<close> of the client is \<open>client_auth\<close> here. \<^verbatim>\<open>v.client.Logical()\<close> returns a
  fresh non-nil pointer, so the branch for a nil logical client is never taken.
\<close>

record Client =
  store :: string
  attempts :: int
  retry :: int
  client_auth :: Auth


definition IsSealed :: "env \<Rightarrow> bool result" where
  "IsSealed e =
     (case seal_status e of
        Inl err \<Rightarrow> Err (Wrap ''issealed: seal status: '' err)
      | Inr None \<Rightarrow> Panic
      | Inr (Some sealed) \<Rightarrow> Ok sealed)"

text \<open>
  The preamble that the four operations share: the seal check, then the token of the
  provider, set on the client. \<open>name\<close> is the prefix of the error messages.
\<close>

definition preamble :: "string \<Rightarrow> Client \<Rightarrow> env \<Rightarrow> string result \<times> Client \<times> event list" where
  "preamble name v e =
     (case IsSealed e of
        Err err \<Rightarrow> (Err err, v, [SealStatus])
      | Panic \<Rightarrow> (Panic, v, [SealStatus])
      | Ok sealed \<Rightarrow>
          if sealed then (Err (Errorf (name @ ''vault is currently sealed'')), v, [SealStatus])
          else
            (case GetToken (client_auth v) e of
               (Err err, a, tr) \<Rightarrow>
                 (Err (Wrap name err), v\<lparr>client_auth := a\<rparr>, [SealStatus, CallGetToken] @ tr)
             | (Panic, a, tr) \<Rightarrow> (Panic, v\<lparr>client_auth := a\<rparr>, [SealStatus, CallGetToken] @ tr)
             | (Ok tok, a, tr) \<Rightarrow>
                 (Ok tok, v\<lparr>client_auth := a\<rparr>, [SealStatus, CallGetToken] @ tr @ [SetToken tok])))"

definition Write :: "Client \<Rightarrow> string \<Rightarrow> Data \<Rightarrow> env \<Rightarrow> Data result \<times> Client \<times> event list" where
  "Write v p d e =
     (case preamble ''write: '' v e of
        (Err err, v1, tr) \<Rightarrow> (Err err, v1, tr)
      | (Panic, v1, tr) \<Rightarrow> (Panic, v1, tr)
      | (Ok tok, v1, tr) \<Rightarrow>
          (let tr1 = tr @ [LogicalWrite (store v @ ''/'' @ p) (Some d)] in
           case logical_write e (store v @ ''/'' @ p) (Some d) of
             Inl err \<Rightarrow> (Err (Wrap ''write: '' err), v1, tr1)
           | Inr None \<Rightarrow> (Ok Map.empty, v1, tr1)
           | Inr (Some secret) \<Rightarrow> (Ok (Data secret), v1, tr1)))"

definition Read :: "Client \<Rightarrow> string \<Rightarrow> env \<Rightarrow> Data result \<times> Client \<times> event list" where
  "Read v p e =
     (case preamble ''read: '' v e of
        (Err err, v1, tr) \<Rightarrow> (Err err, v1, tr)
      | (Panic, v1, tr) \<Rightarrow> (Panic, v1, tr)
      | (Ok tok, v1, tr) \<Rightarrow>
          (let tr1 = tr @ [LogicalRead (store v @ ''/'' @ p)] in
           case logical_read e (store v @ ''/'' @ p) of
             Inl err \<Rightarrow> (Err (Wrap ''read: '' err), v1, tr1)
           | Inr None \<Rightarrow> (Err (Wrap ''read: '' (NewKeyError p)), v1, tr1)
           | Inr (Some secret) \<Rightarrow> (Ok (Data secret), v1, tr1)))"

definition Delete :: "Client \<Rightarrow> string \<Rightarrow> env \<Rightarrow> Data result \<times> Client \<times> event list" where
  "Delete v p e =
     (case preamble ''delete: '' v e of
        (Err err, v1, tr) \<Rightarrow> (Err err, v1, tr)
      | (Panic, v1, tr) \<Rightarrow> (Panic, v1, tr)
      | (Ok tok, v1, tr) \<Rightarrow>
          (let tr1 = tr @ [LogicalDelete (store v @ ''/'' @ p)] in
           case logical_delete e (store v @ ''/'' @ p) of
             Inl err \<Rightarrow> (Err (Wrap ''delete: '' err), v1, tr1)
           | Inr None \<Rightarrow> (Ok Map.empty, v1, tr1)
           | Inr (Some secret) \<Rightarrow> (Ok (Data secret), v1, tr1)))"

text \<open>
  The loop of \<^verbatim>\<open>List\<close> over \<^verbatim>\<open>secret.Data["keys"].([]interface{})\<close>; each element goes
  through the type assertion \<^verbatim>\<open>k.(string)\<close>, which panics on anything but a string.
\<close>

fun list_keys :: "val list \<Rightarrow> string list \<Rightarrow> string list result" where
  "list_keys [] keys = Ok keys"
| "list_keys (VString k # ks) keys = list_keys ks (keys @ [k])"
| "list_keys (x # ks) keys = Panic"

text \<open>\<^verbatim>\<open>List\<close> reports the sealed vault and a failed \<^verbatim>\<open>GetToken\<close> under the name of delete.\<close>

definition List :: "Client \<Rightarrow> string \<Rightarrow> env \<Rightarrow> string list result \<times> Client \<times> event list" where
  "List v p e =
     (case preamble ''delete: '' v e of
        (Err err, v1, tr) \<Rightarrow> (Err err, v1, tr)
      | (Panic, v1, tr) \<Rightarrow> (Panic, v1, tr)
      | (Ok tok, v1, tr) \<Rightarrow>
          (let tr1 = tr @ [LogicalList (store v @ ''/'' @ p)] in
           case logical_list e (store v @ ''/'' @ p) of
             Inl err \<Rightarrow> (Err err, v1, tr1)
           | Inr None \<Rightarrow> (Err (NewListError (store v) p), v1, tr1)
           | Inr (Some secret) \<Rightarrow>
               (case index (Data secret) ''keys'' of
                  VList ks \<Rightarrow> (list_keys ks [], v1, tr1)
                | _ \<Rightarrow> (Panic, v1, tr1))))"

text \<open>
  \<^verbatim>\<open>ReadKey\<close>, the composite that reads one field as a string. A nil map and an empty map
  are both the empty map here: the operations of this theory only read the data of a secret.
\<close>

definition ReadKey :: "Client \<Rightarrow> string \<Rightarrow> string \<Rightarrow> env \<Rightarrow> string result \<times> Client \<times> event list" where
  "ReadKey v p field e =
     (case Read v p e of
        (Err err, v1, tr) \<Rightarrow> (Err (Wrap ''get: '' err), v1, tr)
      | (Panic, v1, tr) \<Rightarrow> (Panic, v1, tr)
      | (Ok d, v1, tr) \<Rightarrow>
          if length (GetString d field) = 0 then (Err (Wrap ''get: '' (NewFieldError field)), v1, tr)
          else (Ok (GetString d field), v1, tr))"

text \<open>
  A client for the examples, over the store \<^verbatim>\<open>kv\<close>, with a standing token that is valid
  for one more nanosecond of the quiet world.
\<close>

definition kv_client :: Client where
  "kv_client =
     \<lparr>store = ''kv'', attempts = 12, retry = 5,
      client_auth = TokenAuth \<lparr>token = ''t'', token_file = [], expires = now quiet + 1\<rparr>\<rparr>"

section \<open>New: construction of the client\<close>





section \<open>Round trips of the field encodings\<close>

subsection \<open>Booleans and unsigned integers\<close>

lemma ParseBool_FormatBool: "ParseBool (FormatBool b) = (b, None)"
  by (cases b) (simp_all add: ParseBool_def FormatBool_def)

lemma of_char_digit_char: "d < 10 \<Longrightarrow> of_char (digit_char d) = 48 + d"
proof -
  assume "d < 10"
  then have "d \<in> {0,1,2,3,4,5,6,7,8,9}" by auto
  then show ?thesis by (auto simp: digit_char_def)
qed

lemma digit_step_digit:
  assumes "d < 10" and "m * 10 + d < 2 ^ 64"
  shows "digit_step (digit_char d) m = Inr (m * 10 + d)"
proof -
  have m: "m < 1844674407370955162" using assms by simp
  have m10: "m * 10 < 18446744073709551616" using assms by simp
  have md: "m * 10 + d < 18446744073709551616" using assms by simp
  show ?thesis
    using assms(1) m m10 md
    by (simp add: digit_step_def of_char_digit_char maxUint64_def Let_def)
qed

lemma parse_digits_append:
  "parse_digits (xs @ ys) n =
     (case parse_digits xs n of Inl e \<Rightarrow> Inl e | Inr m \<Rightarrow> parse_digits ys m)"
  by (induction xs arbitrary: n) (auto split: sum.splits)

lemma parse_digits_FormatUint: "n < 2 ^ 64 \<Longrightarrow> parse_digits (FormatUint n) 0 = Inr n"
proof (induction n rule: FormatUint.induct)
  case (1 n)
  show ?case
  proof (cases "n < 10")
    case True
    then have "digit_step (digit_char n) 0 = Inr (0 * 10 + n)"
      using "1.prems" by (intro digit_step_digit) simp_all
    with True show ?thesis by (simp add: FormatUint.simps [of n])
  next
    case False
    have "n div 10 < 2 ^ 64" using "1.prems" by simp
    with False "1.IH" have ih: "parse_digits (FormatUint (n div 10)) 0 = Inr (n div 10)" by simp
    have "digit_step (digit_char (n mod 10)) (n div 10) = Inr (n div 10 * 10 + n mod 10)"
      using "1.prems" by (intro digit_step_digit) simp_all
    then have "digit_step (digit_char (n mod 10)) (n div 10) = Inr n" by simp
    with False ih show ?thesis
      by (simp add: FormatUint.simps [of n] parse_digits_append)
  qed
qed

lemma FormatUint_nonempty: "FormatUint n \<noteq> []"
  by (subst FormatUint.simps) simp

lemma ParseUint_FormatUint: "n < 2 ^ 64 \<Longrightarrow> ParseUint (FormatUint n) = (n, None)"
  by (simp add: ParseUint_def FormatUint_nonempty parse_digits_FormatUint)

lemma GetUint64_SetUint64: "GetUint64 (SetUint64 d field n) field = n"
proof -
  have "unat n < 2 ^ 64" using unsigned_less [of n] by simp
  then show ?thesis
    by (simp add: GetUint64_def SetUint64_def index_def ParseUint_FormatUint)
qed

subsection \<open>Base64\<close>

lemma sextets_reassemble:
  fixes v :: nat
  assumes v: "v < 16777216"
  shows "v div 262144 mod 64 * 262144 + v div 4096 mod 64 * 4096 + v div 64 mod 64 * 64 + v mod 64 = v"
proof -
  have d1: "v div 4096 = v div 64 div 64" by (simp add: div_mult2_eq)
  have d2: "v div 262144 = v div 4096 div 64" by (simp add: div_mult2_eq)
  have "v div 262144 < 64" using v by simp
  then have top: "v div 262144 mod 64 = v div 262144" by simp
  have e0: "v = v div 64 * 64 + v mod 64" by simp
  have e1: "v div 64 = v div 4096 * 64 + v div 64 mod 64" unfolding d1 by simp
  have e2: "v div 4096 = v div 262144 * 64 + v div 4096 mod 64" unfolding d2 by simp
  have "v = ((v div 262144 * 64 + v div 4096 mod 64) * 64 + v div 64 mod 64) * 64 + v mod 64"
    using e0 e1 e2 by simp
  then show ?thesis unfolding top by simp
qed

lemma bytes_of_triple:
  fixes a b c :: nat
  assumes "a < 256" "b < 256" "c < 256"
  shows "(a * 65536 + b * 256 + c) div 65536 mod 256 = a"
    and "(a * 65536 + b * 256 + c) div 256 mod 256 = b"
    and "(a * 65536 + b * 256 + c) mod 256 = c"
proof -
  have "b * 256 + c < 65536" using assms by simp
  then have "(a * 65536 + (b * 256 + c)) div 65536 = a" by simp
  then show "(a * 65536 + b * 256 + c) div 65536 mod 256 = a" using assms by (simp add: add.assoc)
  have "(a * 256 + b) * 256 + c = a * 65536 + b * 256 + c" by simp
  moreover have "((a * 256 + b) * 256 + c) div 256 = a * 256 + b" using assms by simp
  ultimately have "(a * 65536 + b * 256 + c) div 256 = a * 256 + b" by simp
  then show "(a * 65536 + b * 256 + c) div 256 mod 256 = b" using assms by simp
  have "a * 65536 + b * 256 + c = c + (a * 256 + b) * 256" by simp
  then have "(a * 65536 + b * 256 + c) mod 256 = (c + (a * 256 + b) * 256) mod 256" by (rule arg_cong)
  also have "\<dots> = c" using assms(3) by (simp only: mod_mult_self1 mod_less)
  finally show "(a * 65536 + b * 256 + c) mod 256 = c" .
qed

lemma lookup_pos_nth:
  "distinct xs \<Longrightarrow> k < length xs \<Longrightarrow> lookup_pos (xs ! k) xs i = i + k"
proof (induction xs arbitrary: i k)
  case Nil
  then show ?case by simp
next
  case (Cons x xs)
  show ?case
  proof (cases k)
    case 0
    then show ?thesis by simp
  next
    case (Suc j)
    with Cons.prems have "xs ! j \<in> set xs" "x \<notin> set xs" by auto
    then have "x \<noteq> xs ! j" by auto
    with Suc Cons show ?thesis by simp
  qed
qed

lemma distinct_encodeURL: "distinct encodeURL"
  by (simp add: encodeURL_def)

lemma length_encodeURL: "length encodeURL = 64"
  by (simp add: encodeURL_def)

lemma decodeMap_enc: "k < 64 \<Longrightarrow> decodeMap (enc k) = k"
  using lookup_pos_nth [OF distinct_encodeURL, of k 0]
  by (simp add: decodeMap_def enc_def length_encodeURL)

lemma decodeMap_enc_mod: "decodeMap (enc (v mod 64)) = v mod 64"
  by (rule decodeMap_enc) simp

lemma sextet_valid: "(v::nat) mod 64 \<noteq> 255"
proof -
  have "v mod 64 < 64" by simp
  then show ?thesis by linarith
qed

lemma decodeMap_pad: "decodeMap (CHR ''='') = 255"
  by (simp add: decodeMap_def encodeURL_def)

lemma pad_not_newline: "\<not> is_newline (CHR ''='')"
  by (simp add: is_newline_def)

lemma quantum_bytes_four:
  "quantum_bytes [k0, k1, k2, k3] =
     [of_nat ((k0 * 262144 + k1 * 4096 + k2 * 64 + k3) div 65536 mod 256),
      of_nat ((k0 * 262144 + k1 * 4096 + k2 * 64 + k3) div 256 mod 256),
      of_nat ((k0 * 262144 + k1 * 4096 + k2 * 64 + k3) mod 256)]"
  by (simp add: quantum_bytes_def Let_def)

lemma quantum_bytes_three:
  "quantum_bytes [k0, k1, k2] =
     [of_nat ((k0 * 262144 + k1 * 4096 + k2 * 64 + 0) div 65536 mod 256),
      of_nat ((k0 * 262144 + k1 * 4096 + k2 * 64 + 0) div 256 mod 256)]"
  by (simp add: quantum_bytes_def Let_def)

lemma quantum_bytes_two:
  "quantum_bytes [k0, k1] = [of_nat ((k0 * 262144 + k1 * 4096 + 0 * 64 + 0) div 65536 mod 256)]"
  by (simp add: quantum_bytes_def Let_def)

lemma quantum_bytes4:
  assumes "v < 16777216"
  shows "quantum_bytes [v div 262144 mod 64, v div 4096 mod 64, v div 64 mod 64, v mod 64]
         = [of_nat (v div 65536 mod 256), of_nat (v div 256 mod 256), of_nat (v mod 256)]"
  by (simp only: quantum_bytes_four sextets_reassemble [OF assms])

lemma quantum_bytes3:
  assumes "v < 16777216" and "v mod 64 = 0"
  shows "quantum_bytes [v div 262144 mod 64, v div 4096 mod 64, v div 64 mod 64]
         = [of_nat (v div 65536 mod 256), of_nat (v div 256 mod 256)]"
proof -
  have "v div 262144 mod 64 * 262144 + v div 4096 mod 64 * 4096 + v div 64 mod 64 * 64 + 0 = v"
    using sextets_reassemble [OF assms(1)] by (simp only: assms(2))
  then show ?thesis by (simp only: quantum_bytes_three)
qed

lemma quantum_bytes2:
  assumes "v < 16777216" and "v mod 64 = 0" and "v div 64 mod 64 = 0"
  shows "quantum_bytes [v div 262144 mod 64, v div 4096 mod 64] = [of_nat (v div 65536 mod 256)]"
proof -
  have "v div 262144 mod 64 * 262144 + v div 4096 mod 64 * 4096 + 0 * 64 + 0 = v"
    using sextets_reassemble [OF assms(1)] by (simp only: assms(2,3))
  then show ?thesis by (simp only: quantum_bytes_two)
qed

lemma decode_loop_Encode: "decode_loop (EncodeToString bs) [] si = (bs, None)"
proof (induction bs arbitrary: si rule: EncodeToString.induct)
  case 1
  show ?case by simp
next
  case (2 a)
  define v where "v = unat a * 65536"
  have a: "unat a < 256" using unsigned_less [of a] by simp
  have v: "v < 16777216" using a by (simp add: v_def)
  have z: "v mod 64 = 0" "v div 64 mod 64 = 0" by (simp_all add: v_def)
  have b: "v div 65536 mod 256 = unat a" using a by (simp add: v_def)
  show ?case
    unfolding EncodeToString.simps v_def [symmetric] Let_def
    by (simp add: decodeMap_enc_mod sextet_valid decodeMap_pad pad_not_newline
        finish_padding_def quantum_bytes2 [OF v z] b)
next
  case (3 a b)
  define v where "v = unat a * 65536 + unat b * 256"
  have a: "unat a < 256" "unat b < 256" using unsigned_less [of a] unsigned_less [of b] by simp_all
  have v: "v < 16777216" using a by (simp add: v_def)
  have z: "v mod 64 = 0" by (simp add: v_def)
  have b: "v div 65536 mod 256 = unat a" "v div 256 mod 256 = unat b"
    using bytes_of_triple(1,2) [OF a, of 0] by (simp_all add: v_def)
  show ?case
    unfolding EncodeToString.simps v_def [symmetric] Let_def
    by (simp add: decodeMap_enc_mod sextet_valid decodeMap_pad pad_not_newline
        finish_padding_def quantum_bytes3 [OF v z] b)
next
  case (4 a b c rest)
  define v where "v = unat a * 65536 + unat b * 256 + unat c"
  have a: "unat a < 256" "unat b < 256" "unat c < 256"
    using unsigned_less [of a] unsigned_less [of b] unsigned_less [of c] by simp_all
  have v: "v < 16777216" using a by (simp add: v_def)
  have b: "v div 65536 mod 256 = unat a" "v div 256 mod 256 = unat b" "v mod 256 = unat c"
    using bytes_of_triple [OF a] by (simp_all add: v_def)
  show ?case
    unfolding EncodeToString.simps v_def [symmetric] Let_def
    by (simp add: decodeMap_enc_mod sextet_valid quantum_bytes4 [OF v] b "4.IH")
qed

lemma EncodeToString_nonempty: "bs \<noteq> [] \<Longrightarrow> EncodeToString bs \<noteq> []"
  by (induction bs rule: EncodeToString.induct) (simp_all add: Let_def)

lemma lookup_pos_notin: "c \<notin> set xs \<Longrightarrow> lookup_pos c xs i = 255"
  by (induction xs arbitrary: i) auto

lemma decodeMap_outside: "c \<notin> set encodeURL \<Longrightarrow> decodeMap c = 255"
  by (simp add: decodeMap_def lookup_pos_notin)

subsection \<open>The decoder accepts the valid strings and no others\<close>

lemma lookup_pos_bound: "c \<in> set xs \<Longrightarrow> lookup_pos c xs i < i + length xs"
proof (induction xs arbitrary: i)
  case Nil
  then show ?case by simp
next
  case (Cons x xs)
  show ?case
  proof (cases "x = c")
    case True
    then show ?thesis by simp
  next
    case False
    with Cons.prems have "c \<in> set xs" by simp
    from Cons.IH [OF this, of "Suc i"] False show ?thesis by simp
  qed
qed

lemma decodeMap_valid_iff: "decodeMap c \<noteq> 255 \<longleftrightarrow> c \<in> set encodeURL"
proof
  assume "decodeMap c \<noteq> 255"
  then show "c \<in> set encodeURL" using decodeMap_outside by blast
next
  assume "c \<in> set encodeURL"
  then have "lookup_pos c encodeURL 0 < 0 + length encodeURL" by (rule lookup_pos_bound)
  then show "decodeMap c \<noteq> 255" by (simp add: decodeMap_def length_encodeURL)
qed

lemma newline_outside: "is_newline c \<Longrightarrow> c \<notin> set encodeURL"
  by (auto simp: is_newline_def encodeURL_def)

lemma pad_outside: "CHR ''='' \<notin> set encodeURL"
  by (simp add: encodeURL_def)

lemma filter_dropWhile: "filter (\<lambda>x. \<not> P x) (dropWhile P xs) = filter (\<lambda>x. \<not> P x) xs"
  by (induction xs) auto

lemma dropWhile_Cons_filter:
  "dropWhile P xs = y # ys \<Longrightarrow> filter (\<lambda>x. \<not> P x) xs = y # filter (\<lambda>x. \<not> P x) ys"
proof -
  assume d: "dropWhile P xs = y # ys"
  then have "\<not> P y" using hd_dropWhile [of P xs] by auto
  moreover have "filter (\<lambda>x. \<not> P x) xs = filter (\<lambda>x. \<not> P x) (y # ys)"
    using filter_dropWhile [of P xs] d by simp
  ultimately show ?thesis by simp
qed

lemma finish_padding_ok:
  "snd (finish_padding cs acc si) = None \<longleftrightarrow> filter (\<lambda>c. \<not> is_newline c) cs = []"
  by (simp add: finish_padding_def Let_def filter_empty_conv)

lemma decode_loop_valid_from:
  "length acc < 4 \<Longrightarrow>
     snd (decode_loop s acc si) = None
       \<longleftrightarrow> valid_from (length acc) (filter (\<lambda>c. \<not> is_newline c) s)"
proof (induction s arbitrary: acc si)
  case Nil
  then show ?case by simp
next
  case (Cons c cs)
  show ?case
  proof (cases "c \<in> set encodeURL")
    case True
    then have dm: "decodeMap c \<noteq> 255" and nn: "\<not> is_newline c"
      using decodeMap_valid_iff newline_outside by blast+
    show ?thesis
    proof (cases "length acc = 3")
      case True
      with dm nn \<open>c \<in> set encodeURL\<close> Cons.IH [of "[]" "Suc si"] show ?thesis
        by (simp add: Let_def)
    next
      case False
      with Cons.prems have "length (acc @ [decodeMap c]) < 4" by simp
      from Cons.IH [OF this, of "Suc si"] False dm nn \<open>c \<in> set encodeURL\<close> Cons.prems
      show ?thesis by (simp add: mod_Suc)
    qed
  next
    case False
    then have dm: "decodeMap c = 255" using decodeMap_valid_iff by blast
    show ?thesis
    proof (cases "is_newline c")
      case True
      with dm Cons.IH [OF Cons.prems, of "Suc si"] show ?thesis by simp
    next
      case nn: False
      show ?thesis
      proof (cases "c = CHR ''=''")
        case False
        with dm nn \<open>c \<notin> set encodeURL\<close> show ?thesis by simp
      next
        case pad: True
        consider "length acc < 2" | "length acc = 2" | "length acc = 3"
          using Cons.prems by linarith
        then show ?thesis
        proof cases
          case 1
          with dm nn pad \<open>c \<notin> set encodeURL\<close> show ?thesis by auto
        next
          case 2
          show ?thesis
          proof (cases "dropWhile is_newline cs")
            case Nil
            then have "filter (\<lambda>c. \<not> is_newline c) cs = []" by (simp add: filter_empty_conv)
            with 2 dm nn pad \<open>c \<notin> set encodeURL\<close> show ?thesis by (simp add: Let_def Nil)
          next
            case (Cons y ys)
            then have f: "filter (\<lambda>c. \<not> is_newline c) cs = y # filter (\<lambda>c. \<not> is_newline c) ys"
              by (rule dropWhile_Cons_filter)
            show ?thesis
              using f 2 dm nn pad \<open>c \<notin> set encodeURL\<close>
              by (simp add: Let_def finish_padding_ok Cons)
          qed
        next
          case 3
          with dm nn pad \<open>c \<notin> set encodeURL\<close> show ?thesis by (simp add: finish_padding_ok)
        qed
      qed
    qed
  qed
qed

lemma valid_from_quanta: "valid_from 0 s = valid_quanta s"
proof (induction s rule: valid_quanta.induct)
qed (auto simp: pad_outside)

lemma DecodeString_valid: "snd (DecodeString s) = None \<longleftrightarrow> valid_base64 s"
  using decode_loop_valid_from [of "[]" s 0]
  by (simp add: DecodeString_def valid_base64_def valid_from_quanta)

subsection \<open>The byte accessors\<close>

lemma GetBytes_stored:
  "d f = Some (VString v) \<Longrightarrow> v \<noteq> [] \<Longrightarrow> GetBytes d f = DecodeString v"
  by (simp add: GetBytes_def index_def)

lemma GetBytes_SetBytes: "s \<noteq> [] \<Longrightarrow> GetBytes (SetBytes d f s) f = (s, None)"
  by (simp add: GetBytes_def SetBytes_def index_def EncodeToString_nonempty DecodeString_def
      decode_loop_Encode)

lemma GetBool_SetBool: "GetBool (SetBool d f b) f = b"
  by (simp add: GetBool_def SetBool_def index_def ParseBool_FormatBool)

text \<open>
  C7 (amended). A boolean and an unsigned 64-bit integer come back from their field as they
  were stored; a non-empty byte sequence comes back as it was stored, without an error; for
  a stored non-empty string \<^verbatim>\<open>GetBytes\<close> returns what the base64 decoder returns, error
  included; and a stored string that is not valid base64 is answered with an error.
\<close>

theorem encoding_round_trip:
  "GetBool (SetBool d f b) f = b
   \<and> GetUint64 (SetUint64 d f n) f = n
   \<and> (s \<noteq> [] \<longrightarrow> GetBytes (SetBytes d f s) f = (s, None))
   \<and> (d f = Some (VString v) \<and> v \<noteq> [] \<longrightarrow> GetBytes d f = DecodeString v)
   \<and> (d f = Some (VString v) \<and> \<not> valid_base64 v \<longrightarrow> snd (GetBytes d f) \<noteq> None)"
proof (intro conjI impI)
  show "GetBool (SetBool d f b) f = b" by (rule GetBool_SetBool)
  show "GetUint64 (SetUint64 d f n) f = n" by (rule GetUint64_SetUint64)
  show "GetBytes (SetBytes d f s) f = (s, None)" if "s \<noteq> []"
    using that by (rule GetBytes_SetBytes)
  show "GetBytes d f = DecodeString v" if "d f = Some (VString v) \<and> v \<noteq> []"
    using that by (simp add: GetBytes_stored)
  show "snd (GetBytes d f) \<noteq> None" if h: "d f = Some (VString v) \<and> \<not> valid_base64 v"
  proof (cases "v = []")
    case True
    with h show ?thesis by (simp add: GetBytes_def index_def)
  next
    case False
    with h have "GetBytes d f = DecodeString v" by (simp add: GetBytes_stored)
    with h show ?thesis by (simp add: DecodeString_valid)
  qed
qed

theorem encoding_round_trip_witness:
  "GetBool (SetBool (SetString NewData ''bytes'' ''aG!='') ''bytes'' True) ''bytes'' = True
   \<and> GetUint64 (SetUint64 (SetString NewData ''bytes'' ''aG!='') ''bytes'' 1234) ''bytes'' = 1234
   \<and> GetBytes (SetBytes (SetString NewData ''bytes'' ''aG!='') ''bytes'' [104, 105]) ''bytes''
       = ([104, 105], None)
   \<and> GetBytes (SetString NewData ''bytes'' ''aG!='') ''bytes'' = DecodeString ''aG!=''
   \<and> snd (GetBytes (SetString NewData ''bytes'' ''aG!='') ''bytes'') \<noteq> None"
  using encoding_round_trip [where d = "SetString NewData ''bytes'' ''aG!=''" and f = "''bytes''"
      and b = True and n = 1234 and s = "[104, 105]" and v = "''aG!=''"]
  by (auto simp add: SetString_def valid_base64_def encodeURL_def is_newline_def)

text \<open>
  C7 as stated fails on the empty byte sequence: it is stored as the empty string, which
  \<^verbatim>\<open>GetBytes\<close> rejects before decoding.
\<close>

theorem empty_bytes_counterexample:
  "GetBytes (SetBytes NewData ''bytes'' []) ''bytes''
     = ([], Some (Errorf ''getbytes:bytes is empty''))"
  by (simp add: GetBytes_def SetBytes_def index_def)

section \<open>The facade: seal check, missing keys, listing\<close>

lemma preamble_sealed:
  "seal_status e = Inr (Some True) \<Longrightarrow>
     preamble name v e = (Err (Errorf (name @ ''vault is currently sealed'')), v, [SealStatus])"
  by (simp add: preamble_def IsSealed_def)

text \<open>
  C5. When the seal status reports sealed, each of the four operations returns its sealed
  error; the trace holds the seal-status query alone, so neither the credential provider
  nor the data request has been reached, and the client with its provider is unchanged.
\<close>

theorem sealed_short_circuit:
  assumes "seal_status e = Inr (Some True)"
  shows "Read v p e = (Err (Errorf ''read: vault is currently sealed''), v, [SealStatus])
       \<and> Write v p d e = (Err (Errorf ''write: vault is currently sealed''), v, [SealStatus])
       \<and> Delete v p e = (Err (Errorf ''delete: vault is currently sealed''), v, [SealStatus])
       \<and> List v p e = (Err (Errorf ''delete: vault is currently sealed''), v, [SealStatus])"
  using preamble_sealed [OF assms]
  by (simp add: Read_def Write_def Delete_def List_def)

theorem sealed_short_circuit_witness:
  "seal_status (quiet\<lparr>seal_status := Inr (Some True)\<rparr>) = Inr (Some True)
   \<and> Read kv_client ''test'' (quiet\<lparr>seal_status := Inr (Some True)\<rparr>)
       = (Err (Errorf ''read: vault is currently sealed''), kv_client, [SealStatus])
   \<and> Write kv_client ''test'' NewData (quiet\<lparr>seal_status := Inr (Some True)\<rparr>)
       = (Err (Errorf ''write: vault is currently sealed''), kv_client, [SealStatus])
   \<and> Delete kv_client ''test'' (quiet\<lparr>seal_status := Inr (Some True)\<rparr>)
       = (Err (Errorf ''delete: vault is currently sealed''), kv_client, [SealStatus])
   \<and> List kv_client ''test'' (quiet\<lparr>seal_status := Inr (Some True)\<rparr>)
       = (Err (Errorf ''delete: vault is currently sealed''), kv_client, [SealStatus])"
  using sealed_short_circuit [of "quiet\<lparr>seal_status := Inr (Some True)\<rparr>" kv_client
      "''test''" NewData]
  by simp

lemma preamble_token:
  assumes "seal_status e = Inr (Some False)" and "GetToken (client_auth v) e = (Ok tok, a, tr)"
  shows "preamble name v e
         = (Ok tok, v\<lparr>client_auth := a\<rparr>, [SealStatus, CallGetToken] @ tr @ [SetToken tok])"
  using assms by (simp add: preamble_def IsSealed_def)

text \<open>
  C8. When the service is unsealed, the provider hands out a token and the remote answers
  the read with a nil secret and no error, \<^verbatim>\<open>Read\<close> fails with the key error of that path
  wrapped under \<^verbatim>\<open>read:\<close>; \<^verbatim>\<open>errors.Is\<close> matches it against a fresh key error of the same
  path, through the rendered message. A secret without data is returned as a success.
\<close>

theorem read_missing_key:
  assumes "seal_status e = Inr (Some False)" and "fst (GetToken (client_auth v) e) = Ok tok"
  shows "(logical_read e (store v @ ''/'' @ p) = Inr None \<longrightarrow>
            fst (Read v p e) = Err (Wrap ''read: '' (NewKeyError p))
            \<and> errors_Is (Wrap ''read: '' (NewKeyError p)) (NewKeyError p)
            \<and> Error (Wrap ''read: '' (NewKeyError p)) = ''read: '' @ Error (NewKeyError p))
       \<and> (logical_read e (store v @ ''/'' @ p) = Inr (Some \<lparr>Data = Map.empty, Auth = x\<rparr>) \<longrightarrow>
            fst (Read v p e) = Ok Map.empty)"
proof -
  obtain a tr where g: "GetToken (client_auth v) e = (Ok tok, a, tr)"
    using assms(2) by (cases "GetToken (client_auth v) e") auto
  show ?thesis
    using preamble_token [OF assms(1) g, of "''read: ''"]
    by (simp add: Read_def NewKeyError_def)
qed

lemma kv_client_token: "GetToken (client_auth kv_client) (quiet\<lparr>logical_list := l\<rparr>) = (Ok ''t'',
    client_auth kv_client, [])"
  by (simp add: kv_client_def quiet_def GetToken_def Token_GetToken_def Before_def)

theorem read_missing_key_witness:
  "fst (Read kv_client ''missing'' quiet) = Err (Wrap ''read: '' (NewKeyError ''missing''))
   \<and> errors_Is (Wrap ''read: '' (NewKeyError ''missing'')) (NewKeyError ''missing'')
   \<and> Error (Wrap ''read: '' (NewKeyError ''missing'')) = ''read: vault: key missing does not exist''"
  using read_missing_key [of quiet kv_client "''t''" "''missing''"]
    kv_client_token [of "logical_list quiet"]
  by (simp add: quiet_def NewKeyError_def)

lemma list_keys_panic:
  "\<exists>x \<in> set ks. \<forall>s. x \<noteq> VString s \<Longrightarrow> list_keys ks acc = Panic"
proof (induction ks acc rule: list_keys.induct)
qed auto

text \<open>
  C10. When the remote answers the list request with a secret, \<^verbatim>\<open>List\<close> takes the keys out
  of it with unchecked type assertions: it panics when the data has no field \<^verbatim>\<open>keys\<close>,
  when the field is not a list, and when the list holds an element that is not a string.
\<close>

theorem list_unchecked_assertions:
  assumes "seal_status e = Inr (Some False)" and "fst (GetToken (client_auth v) e) = Ok tok"
    and "logical_list e (store v @ ''/'' @ p) = Inr (Some secret)"
  shows "(Data secret ''keys'' = None \<longrightarrow> fst (List v p e) = Panic)
       \<and> (Data secret ''keys'' = Some x \<and> (\<forall>ks. x \<noteq> VList ks) \<longrightarrow> fst (List v p e) = Panic)
       \<and> (Data secret ''keys'' = Some (VList ks) \<and> (\<exists>k \<in> set ks. \<forall>s. k \<noteq> VString s) \<longrightarrow>
            fst (List v p e) = Panic)"
proof -
  obtain a tr where g: "GetToken (client_auth v) e = (Ok tok, a, tr)"
    using assms(2) by (cases "GetToken (client_auth v) e") auto
  note pre = preamble_token [OF assms(1) g, of "''delete: ''"]
  have 1: "fst (List v p e) = Panic" if "Data secret ''keys'' = None"
    using pre assms(3) that by (simp add: List_def index_def)
  have 2: "fst (List v p e) = Panic" if "Data secret ''keys'' = Some x \<and> (\<forall>ks. x \<noteq> VList ks)"
    using pre assms(3) that by (cases x) (simp_all add: List_def index_def)
  have 3: "fst (List v p e) = Panic"
    if "Data secret ''keys'' = Some (VList ks) \<and> (\<exists>k \<in> set ks. \<forall>s. k \<noteq> VString s)"
    using pre assms(3) that list_keys_panic [of ks "[]"] by (simp add: List_def index_def)
  from 1 2 3 show ?thesis by blast
qed

theorem list_unchecked_assertions_witness:
  "fst (List kv_client ''test''
          (quiet\<lparr>logical_list := (\<lambda>p. Inr (Some \<lparr>Data = Map.empty, Auth = None\<rparr>))\<rparr>)) = Panic
   \<and> fst (List kv_client ''test''
          (quiet\<lparr>logical_list :=
             (\<lambda>p. Inr (Some \<lparr>Data = [''keys'' \<mapsto> VString ''a''], Auth = None\<rparr>))\<rparr>)) = Panic
   \<and> fst (List kv_client ''test''
          (quiet\<lparr>logical_list :=
             (\<lambda>p. Inr (Some \<lparr>Data = [''keys'' \<mapsto> VList [VString ''a'', VNumber ''1'']],
                                 Auth = None\<rparr>))\<rparr>)) = Panic"
  using
    list_unchecked_assertions [of
      "quiet\<lparr>logical_list := (\<lambda>p. Inr (Some \<lparr>Data = Map.empty, Auth = None\<rparr>))\<rparr>"
      kv_client "''t''" "''test''" "\<lparr>Data = Map.empty, Auth = None\<rparr>"]
    list_unchecked_assertions [of
      "quiet\<lparr>logical_list := (\<lambda>p. Inr (Some \<lparr>Data = [''keys'' \<mapsto> VString ''a''], Auth = None\<rparr>))\<rparr>"
      kv_client "''t''" "''test''" "\<lparr>Data = [''keys'' \<mapsto> VString ''a''], Auth = None\<rparr>"
      "VString ''a''"]
    list_unchecked_assertions [of
      "quiet\<lparr>logical_list :=
         (\<lambda>p. Inr (Some \<lparr>Data = [''keys'' \<mapsto> VList [VString ''a'', VNumber ''1'']],
                             Auth = None\<rparr>))\<rparr>"
      kv_client "''t''" "''test''"
      "\<lparr>Data = [''keys'' \<mapsto> VList [VString ''a'', VNumber ''1'']], Auth = None\<rparr>"
      _ "[VString ''a'', VNumber ''1'']"]
    kv_client_token
  by (simp add: quiet_def)

section \<open>Construction: polling the seal status\<close>










section \<open>The expiry of a token\<close>

lemma seconds_exact:
  assumes "- (2 ^ 63) \<le> n * 1000000000" and "n * 1000000000 < 2 ^ 63"
  shows "seconds n = n * 1000000000"
proof -
  have "(word_of_int n * 1000000000 :: 64 word) = word_of_int (n * 1000000000)" by simp
  then have "seconds n = signed_take_bit 63 (n * 1000000000)"
    by (simp only: seconds_def sint_sbintrunc') simp
  also have "\<dots> = n * 1000000000"
    using assms by (intro signed_take_bit_int_eq_self) simp_all
  finally show ?thesis .
qed

lemma setexpiry_margin:
  "auth ar = Some a \<Longrightarrow>
     setexpiry ar e
       = (Ok (), ar\<lparr>auth := Some (a\<lparr>LeaseDuration := margin (LeaseDuration a)\<rparr>),
                   ar_expires := now e + seconds (margin (LeaseDuration a))\<rparr>)"
  by (simp add: setexpiry_def margin_def Add_def Let_def)


lemma renew_success:
  assumes "auth ar = Some cur" and "ClientToken cur \<noteq> []"
    and "logical_write e ''auth/token/renew-self'' None = Inr (Some sec)"
    and "Auth sec = Some a"
  shows "renew ar e
       = (Ok (), ar\<lparr>auth := Some (a\<lparr>LeaseDuration := margin (LeaseDuration a)\<rparr>),
                   ar_expires := now e + seconds (margin (LeaseDuration a))\<rparr>,
          [SetToken (ClientToken cur), LogicalWrite ''auth/token/renew-self'' None])"
  using assms setexpiry_margin [of "ar\<lparr>auth := Some a\<rparr>" a e]
  by (simp add: renew_def Let_def)

lemma unwrap_success:
  assumes "logical_write e ''sys/wrapping/unwrap'' None = Inr (Some sec)"
    and "Data sec ''secret_id_ttl'' = Some (VNumber n)" and "Int64 n = (L, None)"
    and "Data sec ''secret_id'' = Some (VString sid)"
  shows "unwrap ar e
       = (Ok (), ar\<lparr>secret_id := sid,
                   auth := Some \<lparr>ClientToken = [], LeaseDuration = margin L\<rparr>,
                   ar_expires := now e + seconds (margin L)\<rparr>,
          [SetToken (unwrap_token ar), LogicalWrite ''sys/wrapping/unwrap'' None])"
  using assms
    setexpiry_margin [of "ar\<lparr>auth := Some \<lparr>ClientToken = [], LeaseDuration = 0\<rparr>, secret_id := sid,
        auth := Some \<lparr>ClientToken = [], LeaseDuration = L\<rparr>\<rparr>"
      "\<lparr>ClientToken = [], LeaseDuration = L\<rparr>" e]
  by (simp add: unwrap_def Let_def index_def)


lemma token_lookup_expire_time:
  assumes "token_file t = []" and "expires t = 0" and "0 \<le> now e"
    and "logical_read e ''/auth/token/lookup-self'' = Inr (Some sec)"
    and "Data sec ''creation_ttl'' = Some (VNumber n)" and "Int64 n = (L, None)"
    and "Data sec ''expire_time'' = Some (VString x)"
  shows "Token_GetToken t e
       = (Ok (token t), t\<lparr>expires := parse_time e x + seconds (margin L)\<rparr>,
          [SetToken (token t), LogicalRead ''/auth/token/lookup-self''])"
  using assms
  by (simp add: Token_GetToken_def Before_def IsZero_def index_def Let_def margin_def Add_def)



lemma Int64_3600: "Int64 ''3600'' = (3600, None)"
  by (simp add: Int64_def ParseInt_def ParseUint_def digit_step_def lower_def maxUint64_def)





section \<open>The standing token\<close>

subsection \<open>A standing token with a known expiry\<close>

lemma token_cached:
  "token_file t = [] \<Longrightarrow> now e < expires t \<Longrightarrow> Token_GetToken t e = (Ok (token t), t, [])"
  by (simp add: Token_GetToken_def Before_def)

lemma token_renew:
  assumes "token_file t = []" and "expires t \<noteq> 0" and "expires t \<le> now e"
  shows "Token_GetToken t e
       = (case logical_write e ''/auth/token/renew-self'' None of
            Inl err \<Rightarrow> Err (Wrap ''gettoken: '' err)
          | Inr secret \<Rightarrow> Ok (token t),
          t, [SetToken (token t), LogicalWrite ''/auth/token/renew-self'' None])"
  using assms by (simp add: Token_GetToken_def Before_def IsZero_def split: sum.splits)

lemma token_calls_renew_each:
  assumes "token_file t = []" and "expires t \<noteq> 0"
    and "\<forall>e \<in> set es. expires t \<le> now e
           \<and> (\<exists>secret. logical_write e ''/auth/token/renew-self'' None = Inr secret)"
  shows "calls Token_GetToken t es
       = (replicate (length es) (Ok (token t)), t,
          concat (replicate (length es)
            [SetToken (token t), LogicalWrite ''/auth/token/renew-self'' None]))"
  using assms(3)
proof (induction es)
  case Nil
  show ?case by simp
next
  case (Cons e es)
  then obtain secret where "expires t \<le> now e"
    "logical_write e ''/auth/token/renew-self'' None = Inr secret" by auto
  then have "Token_GetToken t e
      = (Ok (token t), t, [SetToken (token t), LogicalWrite ''/auth/token/renew-self'' None])"
    using token_renew [OF assms(1,2), of e] by simp
  with Cons show ?case by simp
qed

text \<open>
  C3, where the code departs from it. A standing token expired one nanosecond ago; the
  renewal succeeds and grants a lease of an hour. \<^verbatim>\<open>GetToken\<close> returns the token and
  leaves the expiry where it was, in the past.
\<close>

theorem token_renewal_keeps_expiry:
  "Token_GetToken \<lparr>token = ''t'', token_file = [], expires = now quiet - 1\<rparr>
     (quiet\<lparr>logical_write := (\<lambda>p d. Inr (Some
        \<lparr>Data = Map.empty, Auth = Some \<lparr>ClientToken = ''t'', LeaseDuration = 3600\<rparr>\<rparr>))\<rparr>)
   = (Ok ''t'', \<lparr>token = ''t'', token_file = [], expires = now quiet - 1\<rparr>,
      [SetToken ''t'', LogicalWrite ''/auth/token/renew-self'' None])"
  by (simp add: Token_GetToken_def Before_def IsZero_def quiet_def)

text \<open>
  C1, where the code departs from it. The same token and the same world: two calls, one
  after the other as the mutex lets them in, send two renewal requests.
\<close>

theorem token_renewal_repeated:
  "calls Token_GetToken \<lparr>token = ''t'', token_file = [], expires = now quiet - 1\<rparr>
     [quiet\<lparr>logical_write := (\<lambda>p d. Inr (Some
        \<lparr>Data = Map.empty, Auth = Some \<lparr>ClientToken = ''t'', LeaseDuration = 3600\<rparr>\<rparr>))\<rparr>,
      quiet\<lparr>logical_write := (\<lambda>p d. Inr (Some
        \<lparr>Data = Map.empty, Auth = Some \<lparr>ClientToken = ''t'', LeaseDuration = 3600\<rparr>\<rparr>))\<rparr>]
   = ([Ok ''t'', Ok ''t''], \<lparr>token = ''t'', token_file = [], expires = now quiet - 1\<rparr>,
      [SetToken ''t'', LogicalWrite ''/auth/token/renew-self'' None,
       SetToken ''t'', LogicalWrite ''/auth/token/renew-self'' None])"
  by (simp add: Token_GetToken_def Before_def IsZero_def quiet_def)

section \<open>The AppRole\<close>

subsection \<open>What the steps of an AppRole leave untouched\<close>

lemma setexpiry_keeps:
  "unwrap_token (snd (setexpiry ar e)) = unwrap_token ar"
  "secret_id (snd (setexpiry ar e)) = secret_id ar"
  "role_id (snd (setexpiry ar e)) = role_id ar"
  "path (snd (setexpiry ar e)) = path ar"
  by (simp_all add: setexpiry_def Let_def split: option.splits)

lemma new_keeps:
  "unwrap_token (fst (snd (new ar e))) = unwrap_token ar"
  "path (fst (snd (new ar e))) = path ar"
  by (simp_all add: new_def Let_def setexpiry_keeps split: option.splits sum.splits)



lemma renew_error_keeps_state: "fst (renew ar e) = Err err \<Longrightarrow> fst (snd (renew ar e)) = ar"
  by (auto simp: renew_def Let_def setexpiry_def split: option.splits sum.splits if_splits)

subsection \<open>The traces of the steps\<close>

lemma login_path_not_renew: "p @ ''/login'' \<noteq> ''auth/token/renew-self''"
proof
  assume "p @ ''/login'' = ''auth/token/renew-self''"
  then have "last (p @ ''/login'') = last ''auth/token/renew-self''" by simp
  then show False by simp
qed


lemma renew_trace:
  "snd (snd (renew ar e)) = []
   \<or> (\<exists>tok. snd (snd (renew ar e)) = [SetToken tok, LogicalWrite ''auth/token/renew-self'' None])"
  by (simp add: renew_def Let_def split: option.splits sum.splits)


lemma unwrap_trace:
  "snd (snd (unwrap ar e))
     = [SetToken (unwrap_token ar), LogicalWrite ''sys/wrapping/unwrap'' None]"
  by (simp add: unwrap_def Let_def split: option.splits sum.splits val.splits prod.splits)


lemma renew_no_login: "ev \<in> set (snd (snd (renew ar e))) \<Longrightarrow> \<not> is_login ar' ev"
  using renew_trace [of ar e] login_path_not_renew [of "path ar'"] by (auto simp: is_login_def)


subsection \<open>The two halves of minting\<close>

lemma GetToken_new_facts:
  "unwrap_token (fst (snd (GetToken_new ar e tr))) = unwrap_token ar"
  "set (snd (snd (GetToken_new ar e tr))) = set tr \<union> set (snd (snd (new ar e)))
   \<or> set (snd (snd (GetToken_new ar e tr))) = set tr"
proof -
  obtain r ar1 tr1 where n: "new ar e = (r, ar1, tr1)" by (cases "new ar e") auto
  then have k: "unwrap_token ar1 = unwrap_token ar" using new_keeps(1) [of ar e] by simp
  show "unwrap_token (fst (snd (GetToken_new ar e tr))) = unwrap_token ar"
    using n k by (cases r) (simp_all add: GetToken_new_def split: option.splits)
  show "set (snd (snd (GetToken_new ar e tr))) = set tr \<union> set (snd (snd (new ar e)))
   \<or> set (snd (snd (GetToken_new ar e tr))) = set tr"
    using n by (cases r) (simp_all add: GetToken_new_def split: option.splits)
qed




lemma GetToken_mint_unwraps:
  assumes "unwrap_token ar \<noteq> []"
  shows "LogicalWrite ''sys/wrapping/unwrap'' None \<in> set (snd (snd (GetToken_mint ar e tr)))"
proof -
  obtain r ar1 tr1 where u: "unwrap ar e = (r, ar1, tr1)" by (cases "unwrap ar e") auto
  then have t: "tr1 = [SetToken (unwrap_token ar), LogicalWrite ''sys/wrapping/unwrap'' None]"
    using unwrap_trace [of ar e] by simp
  have "LogicalWrite ''sys/wrapping/unwrap'' None
      \<in> set (snd (snd (GetToken_new (ar1\<lparr>unwrap_token := []\<rparr>) e (tr @ tr1))))"
    using GetToken_new_facts(2) [of "ar1\<lparr>unwrap_token := []\<rparr>" e "tr @ tr1"] t by auto
  then show ?thesis
    using assms u t by (cases r) (simp_all add: GetToken_mint_def)
qed

subsection \<open>One call\<close>

lemma AppRole_GetToken_mint:
  "reaches_mint ar e \<Longrightarrow>
     AppRole_GetToken ar e
       = GetToken_mint ar e (case auth ar of None \<Rightarrow> [] | Some a \<Rightarrow> snd (snd (renew ar e)))"
proof (cases "auth ar")
  case None
  then show ?thesis by (simp add: AppRole_GetToken_def)
next
  case (Some a)
  assume rm: "reaches_mint ar e"
  obtain r ar1 tr1 where n: "renew ar e = (r, ar1, tr1)" by (cases "renew ar e") auto
  with rm Some obtain err where r: "r = Err err"
    by (cases r) (auto simp: reaches_mint_def)
  with n have "ar1 = ar" using renew_error_keeps_state [of ar e err] by simp
  with rm Some n r show ?thesis by (auto simp: AppRole_GetToken_def reaches_mint_def)
qed




subsection \<open>Calls in sequence\<close>


subsection \<open>Unwrapping and logging in\<close>

lemma new_keeps_secret_id: "secret_id (fst (snd (new ar e))) = secret_id ar"
  by (simp add: new_def Let_def setexpiry_keeps split: option.splits sum.splits)

lemma GetToken_new_login:
  assumes "secret_id ar \<noteq> []"
  shows "snd (snd (GetToken_new ar e tr))
       = tr @ [LogicalWrite (path ar @ ''/login'')
                 (Some (SetString (SetString NewData ''role_id'' (role_id ar)) ''secret_id''
                    (secret_id ar)))]"
    and "secret_id (fst (snd (GetToken_new ar e tr))) = secret_id ar"
proof -
  obtain r ar1 tr1 where n: "new ar e = (r, ar1, tr1)" by (cases "new ar e") auto
  have t: "tr1 = [LogicalWrite (path ar @ ''/login'')
                 (Some (SetString (SetString NewData ''role_id'' (role_id ar)) ''secret_id''
                    (secret_id ar)))]"
    using n assms by (auto simp: new_def Let_def split: option.splits sum.splits)
  have k: "secret_id ar1 = secret_id ar" using new_keeps_secret_id [of ar e] n by simp
  show "snd (snd (GetToken_new ar e tr))
       = tr @ [LogicalWrite (path ar @ ''/login'')
                 (Some (SetString (SetString NewData ''role_id'' (role_id ar)) ''secret_id''
                    (secret_id ar)))]"
    using assms n t by (cases r) (simp_all add: GetToken_new_def split: option.splits)
  show "secret_id (fst (snd (GetToken_new ar e tr))) = secret_id ar"
    using assms n k by (cases r) (simp_all add: GetToken_new_def split: option.splits)
qed

lemma fresh_unwrap_then_login:
  assumes "auth ar = None" and "unwrap_token ar \<noteq> []"
    and "logical_write e ''sys/wrapping/unwrap'' None = Inr (Some sec)"
    and "Data sec ''secret_id_ttl'' = Some (VNumber n)" and "Int64 n = (L, None)"
    and "Data sec ''secret_id'' = Some (VString sid)" and "sid \<noteq> []"
  shows "snd (snd (AppRole_GetToken ar e))
       = [SetToken (unwrap_token ar), LogicalWrite ''sys/wrapping/unwrap'' None,
          LogicalWrite (path ar @ ''/login'')
            (Some (SetString (SetString NewData ''role_id'' (role_id ar)) ''secret_id'' sid))]"
    and "secret_id (fst (snd (AppRole_GetToken ar e))) = sid"
proof -
  let ?ar1 = "ar\<lparr>secret_id := sid,
                  auth := Some \<lparr>ClientToken = [], LeaseDuration = margin L\<rparr>,
                  ar_expires := now e + seconds (margin L), unwrap_token := []\<rparr>"
  have u: "unwrap ar e
      = (Ok (), ar\<lparr>secret_id := sid,
                   auth := Some \<lparr>ClientToken = [], LeaseDuration = margin L\<rparr>,
                   ar_expires := now e + seconds (margin L)\<rparr>,
         [SetToken (unwrap_token ar), LogicalWrite ''sys/wrapping/unwrap'' None])"
    using assms(3-6) by (rule unwrap_success)
  have g: "AppRole_GetToken ar e
      = GetToken_new ?ar1 e [SetToken (unwrap_token ar), LogicalWrite ''sys/wrapping/unwrap'' None]"
    using assms(1,2) u by (simp add: AppRole_GetToken_def GetToken_mint_def)
  have s: "secret_id ?ar1 \<noteq> []" using assms(7) by simp
  show "snd (snd (AppRole_GetToken ar e))
       = [SetToken (unwrap_token ar), LogicalWrite ''sys/wrapping/unwrap'' None,
          LogicalWrite (path ar @ ''/login'')
            (Some (SetString (SetString NewData ''role_id'' (role_id ar)) ''secret_id'' sid))]"
    unfolding g GetToken_new_login(1) [OF s] by simp
  show "secret_id (fst (snd (AppRole_GetToken ar e))) = sid"
    unfolding g GetToken_new_login(2) [OF s] by simp
qed

subsection \<open>When the unwrap fails, and what follows\<close>












lemma seconds_3590: "seconds 3590 = 3590000000000"
  using seconds_exact [of 3590] by simp

lemmas approle_run =
  AppRole_GetToken_def GetToken_mint_def GetToken_new_def unwrap_def new_def renew_def
  setexpiry_def index_def Before_def Add_def NewAppRole_def SetSecretID_def SetUnwrapToken_def
  granting_def grant_def quiet_def Int64_3600 seconds_3590 Let_def





text \<open>
  C4, where the code departs from it. An AppRole with a secret and an empty role
  identifier: the guard of \<^verbatim>\<open>new\<close> asks for both to be empty, so the login request is sent
  with the empty role identifier, and the token of the answer is returned.
\<close>

theorem login_with_empty_role_id:
  "AppRole_GetToken (SetSecretID (NewAppRole ''approle'' ''app'' []) ''s3cr3t'') granting
     = (Ok ''tok'',
        \<lparr>appRoleName = ''app'', role_id = [], secret_id = ''s3cr3t'', unwrap_token = [],
         path = ''auth/approle'', auth = Some \<lparr>ClientToken = ''tok'', LeaseDuration = 3590\<rparr>,
         ar_expires = now quiet + 3590000000000\<rparr>,
        [LogicalWrite ''auth/approle/login''
           (Some (SetString (SetString NewData ''role_id'' []) ''secret_id'' ''s3cr3t''))])"
  by (simp add: approle_run)

lemma missing_secret_material:
  assumes "reaches_mint ar e" and "unwrap_token ar = []" and "secret_id ar = []"
  shows "fst (AppRole_GetToken ar e)
       = Err (Errorf (''gettoken: missing '' @ [CHR 0x27] @ ''secret_id'' @ [CHR 0x27]
                @ '' to get a valid token from Vault''))"
    and "ev \<in> set (snd (snd (AppRole_GetToken ar e))) \<Longrightarrow> \<not> is_login ar ev"
proof -
  let ?tr = "case auth ar of None \<Rightarrow> [] | Some a \<Rightarrow> snd (snd (renew ar e))"
  have g: "AppRole_GetToken ar e = GetToken_mint ar e ?tr"
    using assms(1) by (rule AppRole_GetToken_mint)
  show "fst (AppRole_GetToken ar e)
       = Err (Errorf (''gettoken: missing '' @ [CHR 0x27] @ ''secret_id'' @ [CHR 0x27]
                @ '' to get a valid token from Vault''))"
    using assms(2,3) by (simp add: g GetToken_mint_def GetToken_new_def)
  have t: "snd (snd (AppRole_GetToken ar e)) = ?tr"
    using assms(2,3) by (simp add: g GetToken_mint_def GetToken_new_def)
  show "\<not> is_login ar ev" if "ev \<in> set (snd (snd (AppRole_GetToken ar e)))"
    using that renew_no_login [of ev ar e ar] unfolding t by (auto split: option.splits)
qed

subsection \<open>An AppRole renews once for callers in a row\<close>

lemma approle_cached:
  "auth ar = Some a \<Longrightarrow> ClientToken a \<noteq> [] \<Longrightarrow> now e < ar_expires ar \<Longrightarrow>
     AppRole_GetToken ar e = (Ok (ClientToken a), ar, [])"
  by (simp add: AppRole_GetToken_def Before_def)

lemma approle_calls_cached:
  assumes "auth ar = Some a" and "ClientToken a \<noteq> []" and "\<forall>e \<in> set es. now e < ar_expires ar"
  shows "calls AppRole_GetToken ar es = (replicate (length es) (Ok (ClientToken a)), ar, [])"
  using assms(3)
proof (induction es)
  case Nil
  show ?case by simp
next
  case (Cons e es)
  then have "AppRole_GetToken ar e = (Ok (ClientToken a), ar, [])"
    using approle_cached [OF assms(1,2), of e] by simp
  with Cons show ?case by simp
qed

lemma approle_single_flight:
  assumes "auth ar = Some cur" and "ClientToken cur \<noteq> []" and "ar_expires ar \<le> now e"
    and "logical_write e ''auth/token/renew-self'' None = Inr (Some sec)"
    and "Auth sec = Some a" and "ClientToken a \<noteq> []"
    and "\<forall>e' \<in> set es. now e' < now e + seconds (margin (LeaseDuration a))"
  shows "fst (calls AppRole_GetToken ar (e # es)) = replicate (Suc (length es)) (Ok (ClientToken a))"
    and "snd (snd (calls AppRole_GetToken ar (e # es)))
         = [SetToken (ClientToken cur), LogicalWrite ''auth/token/renew-self'' None]"
proof -
  let ?ar1 = "ar\<lparr>auth := Some (a\<lparr>LeaseDuration := margin (LeaseDuration a)\<rparr>),
                  ar_expires := now e + seconds (margin (LeaseDuration a))\<rparr>"
  have r: "renew ar e
       = (Ok (), ?ar1, [SetToken (ClientToken cur), LogicalWrite ''auth/token/renew-self'' None])"
    using assms(1,2,4,5) by (rule renew_success)
  have first: "AppRole_GetToken ar e
       = (Ok (ClientToken a), ?ar1,
          [SetToken (ClientToken cur), LogicalWrite ''auth/token/renew-self'' None])"
    using assms(1,3) r by (simp add: AppRole_GetToken_def Before_def)
  have rest: "calls AppRole_GetToken ?ar1 es = (replicate (length es) (Ok (ClientToken a)), ?ar1, [])"
    using approle_calls_cached [of ?ar1 "a\<lparr>LeaseDuration := margin (LeaseDuration a)\<rparr>" es]
      assms(6,7) by simp
  show "fst (calls AppRole_GetToken ar (e # es)) = replicate (Suc (length es)) (Ok (ClientToken a))"
    using first rest by simp
  show "snd (snd (calls AppRole_GetToken ar (e # es)))
         = [SetToken (ClientToken cur), LogicalWrite ''auth/token/renew-self'' None]"
    using first rest by simp
qed

end
